theory Spec2Isabelle
  imports Main "HOL-Library.Word"
begin

section \<open>JavaScript strings\<close>

text \<open>
  A JavaScript string is a sequence of code units. The model is \<^typ>\<open>string\<close>, with one
  \<^typ>\<open>char\<close> per code unit; only code units below 256 are representable, which covers
  every SQL text the schema builders of \<^verbatim>\<open>SchemaService.ts\<close> emit from ASCII parameters.
\<close>

text \<open>
  \<^verbatim>\<open>s.split(' ')\<close>: the fields between single separator characters. The result is never
  empty (\<^verbatim>\<open>''.split(' ')\<close> is \<^verbatim>\<open>['']\<close>), and two adjacent separators give an empty field.
\<close>

fun split_js :: "char \<Rightarrow> string \<Rightarrow> string list" where
  "split_js sep [] = [[]]"
| "split_js sep (c # cs) =
     (if c = sep then [] # split_js sep cs
      else (case split_js sep cs of
              [] \<Rightarrow> [[c]]
            | w # ws \<Rightarrow> (c # w) # ws))"

text \<open>
  \<^verbatim>\<open>xs[i]\<close> on an array: \<^verbatim>\<open>undefined\<close> (here \<open>None\<close>) when \<open>i\<close> is out of range.
\<close>

fun index_js :: "'a list \<Rightarrow> nat \<Rightarrow> 'a option" where
  "index_js [] i = None"
| "index_js (x # xs) 0 = Some x"
| "index_js (x # xs) (Suc i) = index_js xs i"

text \<open>
  A template literal \<^verbatim>\<open>`${v}`\<close> with \<open>v\<close> a string or \<^verbatim>\<open>undefined\<close>: the latter is rendered
  as the nine characters \<^verbatim>\<open>undefined\<close>.
\<close>

definition interpolate :: "string option \<Rightarrow> string" where
  "interpolate v = (case v of None \<Rightarrow> ''undefined'' | Some s \<Rightarrow> s)"

text \<open>\<^verbatim>\<open>n.toString()\<close> for a non-negative integral number: its decimal digits.\<close>

definition digit_char :: "nat \<Rightarrow> char" where
  "digit_char d = ''0123456789abcdef'' ! (d mod 16)"

fun toString_nat :: "nat \<Rightarrow> string" where
  "toString_nat n =
     (if n < 10 then [digit_char n] else toString_nat (n div 10) @ [digit_char (n mod 10)])"

declare toString_nat.simps [simp del]

text \<open>\<^verbatim>\<open>buf.toString('hex')\<close>: two lower-case hexadecimal digits per byte.\<close>

definition hex_byte :: "8 word \<Rightarrow> string" where
  "hex_byte b = [digit_char (unat b div 16), digit_char (unat b mod 16)]"

definition toString_hex :: "8 word list \<Rightarrow> string" where
  "toString_hex buf = concat (map hex_byte buf)"

text \<open>
  The relational operator \<^verbatim>\<open><\<close> on two strings: lexicographic comparison of code units,
  a proper prefix being smaller.
\<close>

fun less_js :: "string \<Rightarrow> string \<Rightarrow> bool" where
  "less_js [] [] = False"
| "less_js [] (y # ys) = True"
| "less_js (x # xs) [] = False"
| "less_js (x # xs) (y # ys) =
     (if x = y then less_js xs ys else (of_char x :: nat) < of_char y)"

section \<open>The three regular expressions of generateRevertSql\<close>

text \<open>
  A backtracking matcher in the list-of-successes style. A matcher state is the list of
  captures made so far and the rest of the input; a pattern maps a state to every state it
  can end in, in the order in which the backtracking engine of JavaScript tries them
  (greedy quantifiers longest first, lazy ones shortest first). Sequencing is \<open>then_re\<close>.
\<close>

type_synonym re_state = "string list \<times> string"
type_synonym re = "re_state \<Rightarrow> re_state list"

definition then_re :: "re \<Rightarrow> re \<Rightarrow> re" where
  "then_re p q st = concat (map q (p st))"

text \<open>\<^verbatim>\<open>\s\<close>: tab, line feed, vertical tab, form feed, carriage return, space, no-break space.\<close>

definition is_space :: "char \<Rightarrow> bool" where
  "is_space c =
     (c \<in> {CHR 0x09, CHR 0x0A, CHR 0x0B, CHR 0x0C, CHR 0x0D, CHR 0x20, CHR 0xA0})"

text \<open>\<^verbatim>\<open>.\<close> without the \<^verbatim>\<open>s\<close> flag: any code unit but a line terminator.\<close>

definition is_dot :: "char \<Rightarrow> bool" where
  "is_dot c = (c \<notin> {CHR 0x0A, CHR 0x0D})"

text \<open>
  Flag \<^verbatim>\<open>i\<close>: two code units match when their upper-case forms agree. Below 256 and
  without the \<^verbatim>\<open>u\<close> flag only the ASCII letters fold onto the letters of the keywords.
\<close>

definition upper_char :: "char \<Rightarrow> char" where
  "upper_char c =
     (case map_of (zip ''abcdefghijklmnopqrstuvwxyz'' ''ABCDEFGHIJKLMNOPQRSTUVWXYZ'') c of
        None \<Rightarrow> c
      | Some u \<Rightarrow> u)"

fun lit_i :: "string \<Rightarrow> re" where
  "lit_i [] st = [st]"
| "lit_i (k # ks) (caps, []) = []"
| "lit_i (k # ks) (caps, c # cs) =
     (if upper_char c = upper_char k then lit_i ks (caps, cs) else [])"

text \<open>
  \<open>plus_splits p s\<close>: the ways \<^verbatim>\<open>[class]+\<close> can match at the start of \<open>s\<close>, as pairs of the
  matched text and the rest, longest match first.
\<close>

fun plus_splits :: "(char \<Rightarrow> bool) \<Rightarrow> string \<Rightarrow> (string \<times> string) list" where
  "plus_splits p [] = []"
| "plus_splits p (c # cs) =
     (if p c then map (\<lambda>(m, r). (c # m, r)) (plus_splits p cs) @ [([c], cs)] else [])"

text \<open>\<open>lazy_splits p s\<close>: the ways \<^verbatim>\<open>[class]*?\<close> can match, shortest match first.\<close>

fun lazy_splits :: "(char \<Rightarrow> bool) \<Rightarrow> string \<Rightarrow> (string \<times> string) list" where
  "lazy_splits p [] = [([], [])]"
| "lazy_splits p (c # cs) =
     ([], c # cs) # (if p c then map (\<lambda>(m, r). (c # m, r)) (lazy_splits p cs) else [])"

definition plus_re :: "(char \<Rightarrow> bool) \<Rightarrow> re" where
  "plus_re p st = map (\<lambda>(m, r). (fst st, r)) (plus_splits p (snd st))"

definition lazy_star_re :: "(char \<Rightarrow> bool) \<Rightarrow> re" where
  "lazy_star_re p st = map (\<lambda>(m, r). (fst st, r)) (lazy_splits p (snd st))"

text \<open>A capturing group around \<^verbatim>\<open>[class]+\<close>: the matched text is appended to the captures.\<close>

definition capture_plus_re :: "(char \<Rightarrow> bool) \<Rightarrow> re" where
  "capture_plus_re p st = map (\<lambda>(m, r). (fst st @ [m], r)) (plus_splits p (snd st))"

text \<open>\<^verbatim>\<open>(?:...)?\<close>: greedy, so the group is tried before the empty match.\<close>

definition opt_re :: "re \<Rightarrow> re" where
  "opt_re p st = p st @ [st]"

text \<open>
  \<^verbatim>\<open>s.match(re)\<close> for a regular expression without the \<^verbatim>\<open>g\<close> flag: the captures of the
  first success at the leftmost start position that has one, \<^verbatim>\<open>null\<close> (here \<open>None\<close>)
  when no position has one.
\<close>

fun match_js :: "re \<Rightarrow> string \<Rightarrow> string list option" where
  "match_js p [] = (case p ([], []) of [] \<Rightarrow> None | st # _ \<Rightarrow> Some (fst st))"
| "match_js p (c # cs) =
     (case p ([], c # cs) of [] \<Rightarrow> match_js p cs | st # _ \<Rightarrow> Some (fst st))"

text \<open>\<^verbatim>\<open>/CREATE\s+(?:OR\s+REPLACE\s+)?FUNCTION\s+([^\s(]+)/i\<close>\<close>

definition function_re :: re where
  "function_re =
     then_re (lit_i ''CREATE'')
    (then_re (plus_re is_space)
    (then_re (opt_re (then_re (lit_i ''OR'')
                     (then_re (plus_re is_space)
                     (then_re (lit_i ''REPLACE'')
                              (plus_re is_space)))))
    (then_re (lit_i ''FUNCTION'')
    (then_re (plus_re is_space)
             (capture_plus_re (\<lambda>c. \<not> is_space c \<and> c \<noteq> CHR ''(''))))))"

text \<open>\<^verbatim>\<open>/CREATE\s+TRIGGER\s+([^\s]+)\s+.*?ON\s+([^\s]+)/i\<close>\<close>

definition trigger_re :: re where
  "trigger_re =
     then_re (lit_i ''CREATE'')
    (then_re (plus_re is_space)
    (then_re (lit_i ''TRIGGER'')
    (then_re (plus_re is_space)
    (then_re (capture_plus_re (\<lambda>c. \<not> is_space c))
    (then_re (plus_re is_space)
    (then_re (lazy_star_re is_dot)
    (then_re (lit_i ''ON'')
    (then_re (plus_re is_space)
             (capture_plus_re (\<lambda>c. \<not> is_space c))))))))))"

text \<open>\<^verbatim>\<open>/CREATE\s+(?:UNIQUE\s+)?INDEX\s+([^\s]+)/i\<close>\<close>

definition index_re :: re where
  "index_re =
     then_re (lit_i ''CREATE'')
    (then_re (plus_re is_space)
    (then_re (opt_re (then_re (lit_i ''UNIQUE'') (plus_re is_space)))
    (then_re (lit_i ''INDEX'')
    (then_re (plus_re is_space)
             (capture_plus_re (\<lambda>c. \<not> is_space c))))))"

section \<open>Migration records\<close>

datatype MigrationType = Table | Function | Trigger | Index | Alter

text \<open>The string a \<^verbatim>\<open>MigrationType\<close> is at run time.\<close>

fun type_string :: "MigrationType \<Rightarrow> string" where
  "type_string Table = ''table''"
| "type_string Function = ''function''"
| "type_string Trigger = ''trigger''"
| "type_string Index = ''index''"
| "type_string Alter = ''alter''"

text \<open>
  Interface \<^verbatim>\<open>Migration\<close>. The fields carry the prefix \<open>mig_\<close>; \<open>mig_description\<close> is
  \<open>None\<close> for \<^verbatim>\<open>undefined\<close>.
\<close>

record Migration =
  mig_id :: string
  mig_name :: string
  mig_timestamp :: nat
  mig_sql :: string
  mig_type :: MigrationType
  mig_description :: "string option"
  mig_checksum :: string

text \<open>
  What the code throws: a JavaScript \<^verbatim>\<open>Error\<close> with its message, an error of the \<^verbatim>\<open>fs\<close>
  module with its code and path, a \<^verbatim>\<open>SyntaxError\<close> of \<^verbatim>\<open>JSON.parse\<close>, or the error with
  which the database client rejects a statement.
\<close>

datatype fs_code = ENOENT | ENOTDIR | EEXIST | EISDIR

datatype error =
    Error string
  | FsError fs_code "string list"
  | SyntaxError
  | DbError string

section \<open>MigrationService.generateRevertSql\<close>

definition generateRevertSql :: "Migration \<Rightarrow> error + string" where
  "generateRevertSql migration =
     (case mig_type migration of
        Table \<Rightarrow>
          Inr (''DROP TABLE IF EXISTS '' @
               interpolate (index_js (split_js CHR '' '' (mig_sql migration)) 2))
      | Function \<Rightarrow>
          (case match_js function_re (mig_sql migration) of
             Some [functionName] \<Rightarrow>
               Inr (if functionName \<noteq> [] then ''DROP FUNCTION IF EXISTS '' @ functionName
                    else [])
           | _ \<Rightarrow> Inr [])
      | Trigger \<Rightarrow>
          (case match_js trigger_re (mig_sql migration) of
             Some [triggerName, tableName] \<Rightarrow>
               Inr (''DROP TRIGGER IF EXISTS '' @ triggerName @ '' ON '' @ tableName)
           | _ \<Rightarrow> Inr [])
      | Index \<Rightarrow>
          (case match_js index_re (mig_sql migration) of
             Some [indexName] \<Rightarrow>
               Inr (if indexName \<noteq> [] then ''DROP INDEX IF EXISTS '' @ indexName else [])
           | _ \<Rightarrow> Inr [])
      | Alter \<Rightarrow>
          Inl (Error (''Revert not implemented for migration type: '' @
                      type_string (mig_type migration))))"

section \<open>The file system\<close>

text \<open>
  A path is a normalised absolute POSIX path, given as its list of components (the root is
  the empty list). \<^verbatim>\<open>path.join(dir, name)\<close> splits \<open>name\<close> at the separator and normalises:
  an empty segment and \<^verbatim>\<open>.\<close> are dropped, \<^verbatim>\<open>..\<close> steps to the parent (the root is its own
  parent), every other segment is appended. So an id with separators, such as \<^verbatim>\<open>../x\<close>,
  names a file outside of the migrations directory, as it does for the code.

  A file holds either a metadata document, the text
  \<^verbatim>\<open>JSON.stringify({ migrations: ms }, null, 2)\<close>, or a text that is not JSON, on which
  \<^verbatim>\<open>JSON.parse\<close> throws; JSON texts of another shape are not among the contents of this
  model. Parsing a metadata document gives back its records field for field (an absent
  description is omitted on writing and \<^verbatim>\<open>undefined\<close> on reading).
\<close>

type_synonym path = "string list"

definition join_segment :: "path \<Rightarrow> string \<Rightarrow> path" where
  "join_segment p seg =
     (if seg = [] \<or> seg = ''.'' then p
      else if seg = ''..'' then butlast p
      else p @ [seg])"

definition path_join :: "path \<Rightarrow> string \<Rightarrow> path" where
  "path_join dir name = foldl join_segment dir (split_js CHR ''/'' name)"

datatype content = Metadata "Migration list" | Text string

datatype node = Dir | File content

type_synonym filesystem = "path \<rightharpoonup> node"

definition JSON_parse :: "content \<Rightarrow> error + Migration list" where
  "JSON_parse c = (case c of Metadata ms \<Rightarrow> Inr ms | Text _ \<Rightarrow> Inl SyntaxError)"

fun path_prefixes :: "path \<Rightarrow> path list" where
  "path_prefixes [] = [[]]"
| "path_prefixes (x # xs) = [] # map ((#) x) (path_prefixes xs)"

text \<open>
  The error for a path at which nothing exists: \<^verbatim>\<open>ENOTDIR\<close> when one of its ancestors is a
  regular file, \<^verbatim>\<open>ENOENT\<close> otherwise.
\<close>

definition missing :: "path \<Rightarrow> filesystem \<Rightarrow> error" where
  "missing p fs =
     FsError (if \<exists>q \<in> set (path_prefixes (butlast p)). \<exists>c. fs q = Some (File c)
              then ENOTDIR else ENOENT) p"

text \<open>\<^verbatim>\<open>fs.access(p)\<close>: succeeds when something exists at \<open>p\<close>.\<close>

definition access :: "path \<Rightarrow> filesystem \<Rightarrow> error + unit" where
  "access p fs = (case fs p of None \<Rightarrow> Inl (missing p fs) | Some _ \<Rightarrow> Inr ())"

text \<open>
  \<^verbatim>\<open>fs.mkdir(p, { recursive: true })\<close>: creates \<open>p\<close> and its missing ancestors; fails when
  a regular file is in the way.
\<close>

definition mkdir_recursive :: "path \<Rightarrow> filesystem \<Rightarrow> error + filesystem" where
  "mkdir_recursive p fs =
     (if \<exists>q \<in> set (path_prefixes p). \<exists>c. fs q = Some (File c)
      then Inl (FsError (if \<exists>c. fs p = Some (File c) then EEXIST else ENOTDIR) p)
      else Inr (\<lambda>q. if q \<in> set (path_prefixes p) then Some Dir else fs q))"

text \<open>
  \<^verbatim>\<open>fs.writeFile(p, c)\<close>: replaces an existing file, creates a new one inside an existing
  directory.
\<close>

definition writeFile :: "path \<Rightarrow> content \<Rightarrow> filesystem \<Rightarrow> error + filesystem" where
  "writeFile p c fs =
     (case fs p of
        Some Dir \<Rightarrow> Inl (FsError EISDIR p)
      | Some (File _) \<Rightarrow> Inr (fs(p \<mapsto> File c))
      | None \<Rightarrow>
          (if fs (butlast p) = Some Dir then Inr (fs(p \<mapsto> File c))
           else Inl (missing p fs)))"

definition readFile :: "path \<Rightarrow> filesystem \<Rightarrow> error + content" where
  "readFile p fs =
     (case fs p of
        None \<Rightarrow> Inl (missing p fs)
      | Some Dir \<Rightarrow> Inl (FsError EISDIR p)
      | Some (File c) \<Rightarrow> Inr c)"

definition unlink :: "path \<Rightarrow> filesystem \<Rightarrow> error + filesystem" where
  "unlink p fs =
     (case fs p of
        None \<Rightarrow> Inl (missing p fs)
      | Some Dir \<Rightarrow> Inl (FsError EISDIR p)
      | Some (File _) \<Rightarrow> Inr (fs(p := None)))"

section \<open>Configuration\<close>

record MigrationConfig =
  migrationsDir :: path
  metadataFile :: path

definition getMigrationConfig :: "path \<Rightarrow> MigrationConfig" where
  "getMigrationConfig workingDir =
     \<lparr> migrationsDir = path_join workingDir ''migrations'',
       metadataFile = path_join (path_join workingDir ''migrations'') ''metadata.json'' \<rparr>"

section \<open>MigrationService\<close>

text \<open>
  What the service takes from its platform: the SHA-256 digest in hexadecimal
  (\<^verbatim>\<open>crypto.createHash('sha256').update(sql).digest('hex')\<close>) and
  \<^verbatim>\<open>new Date(t).toISOString()\<close>. Both are parameters of the model.
\<close>

record platform =
  sha256_hex :: "string \<Rightarrow> string"
  toISOString :: "nat \<Rightarrow> string"

text \<open>
  What one call of \<^verbatim>\<open>createMigration\<close> reads from its environment: the three values of
  \<^verbatim>\<open>Date.now()\<close> (for the id, the name and the timestamp, in the order of evaluation)
  and the buffer of \<^verbatim>\<open>crypto.randomBytes(4)\<close>.
\<close>

record readings =
  now_id :: nat
  now_name :: nat
  now_timestamp :: nat
  randomBytes :: "8 word list"

text \<open>
  Every operation returns its outcome together with the file system it leaves, also when
  it throws: what was written before the failure stays written.
\<close>

definition ensureMigrationsDir ::
  "MigrationConfig \<Rightarrow> filesystem \<Rightarrow> (error + unit) \<times> filesystem" where
  "ensureMigrationsDir cfg fs =
     (case access (migrationsDir cfg) fs of
        Inr _ \<Rightarrow> (Inr (), fs)
      | Inl _ \<Rightarrow>
          (case mkdir_recursive (migrationsDir cfg) fs of
             Inl e \<Rightarrow> (Inl e, fs)
           | Inr fs1 \<Rightarrow>
               (case writeFile (metadataFile cfg) (Metadata []) fs1 of
                  Inl e \<Rightarrow> (Inl e, fs1)
                | Inr fs2 \<Rightarrow> (Inr (), fs2))))"

definition generateMigrationId :: "readings \<Rightarrow> string" where
  "generateMigrationId rd = toString_nat (now_id rd) @ ''_'' @ toString_hex (randomBytes rd)"

definition generateChecksum :: "platform \<Rightarrow> string \<Rightarrow> string" where
  "generateChecksum pf sql = sha256_hex pf sql"

definition migrationContent :: "platform \<Rightarrow> Migration \<Rightarrow> string" where
  "migrationContent pf migration =
     ''-- Migration: '' @ mig_name migration @ [CHR 0x0A] @
     ''-- Type: '' @ type_string (mig_type migration) @ [CHR 0x0A] @
     ''-- Description: '' @
       (case mig_description migration of
          None \<Rightarrow> ''No description provided''
        | Some d \<Rightarrow> if d = [] then ''No description provided'' else d) @ [CHR 0x0A] @
     ''-- Timestamp: '' @ toISOString pf (mig_timestamp migration) @ [CHR 0x0A] @
     [CHR 0x0A] @
     mig_sql migration @ [CHR 0x0A]"

definition createMigration ::
  "platform \<Rightarrow> MigrationConfig \<Rightarrow> readings \<Rightarrow> MigrationType \<Rightarrow> string \<Rightarrow> string option
     \<Rightarrow> filesystem \<Rightarrow> (error + Migration) \<times> filesystem" where
  "createMigration pf cfg rd type sql description fs =
     (case ensureMigrationsDir cfg fs of
        (Inl e, fs1) \<Rightarrow> (Inl e, fs1)
      | (Inr _, fs1) \<Rightarrow>
          (let migration =
                 \<lparr> mig_id = generateMigrationId rd,
                   mig_name = type_string type @ ''_'' @ toString_nat (now_name rd),
                   mig_timestamp = now_timestamp rd,
                   mig_sql = sql,
                   mig_type = type,
                   mig_description = description,
                   mig_checksum = generateChecksum pf sql \<rparr>;
               migrationFile = path_join (migrationsDir cfg) (mig_id migration @ ''.sql'')
           in case writeFile migrationFile (Text (migrationContent pf migration)) fs1 of
                Inl e \<Rightarrow> (Inl e, fs1)
              | Inr fs2 \<Rightarrow>
                  (case readFile (metadataFile cfg) fs2 of
                     Inl e \<Rightarrow> (Inl e, fs2)
                   | Inr c \<Rightarrow>
                       (case JSON_parse c of
                          Inl e \<Rightarrow> (Inl e, fs2)
                        | Inr ms \<Rightarrow>
                            (case writeFile (metadataFile cfg) (Metadata (ms @ [migration])) fs2 of
                               Inl e \<Rightarrow> (Inl e, fs2)
                             | Inr fs3 \<Rightarrow> (Inr migration, fs3))))))"

definition getMigrations :: "MigrationConfig \<Rightarrow> filesystem \<Rightarrow> Migration list" where
  "getMigrations cfg fs =
     (case readFile (metadataFile cfg) fs of
        Inl _ \<Rightarrow> []
      | Inr c \<Rightarrow> (case JSON_parse c of Inl _ \<Rightarrow> [] | Inr ms \<Rightarrow> ms))"

definition removeMigration ::
  "MigrationConfig \<Rightarrow> string \<Rightarrow> filesystem \<Rightarrow> (error + unit) \<times> filesystem" where
  "removeMigration cfg migrationId fs =
     (case readFile (metadataFile cfg) fs of
        Inl e \<Rightarrow> (Inl e, fs)
      | Inr c \<Rightarrow>
          (case JSON_parse c of
             Inl e \<Rightarrow> (Inl e, fs)
           | Inr ms \<Rightarrow>
               (case writeFile (metadataFile cfg)
                       (Metadata (filter (\<lambda>m. mig_id m \<noteq> migrationId) ms)) fs of
                  Inl e \<Rightarrow> (Inl e, fs)
                | Inr fs1 \<Rightarrow>
                    (case unlink (path_join (migrationsDir cfg) (migrationId @ ''.sql'')) fs1 of
                       Inl e \<Rightarrow> (Inl e, fs1)
                     | Inr fs2 \<Rightarrow> (Inr (), fs2)))))"

section \<open>The database client and the tool handlers\<close>

text \<open>
  The state a tool handler works on: the file system, the database behind the pooled
  client, and a log of what the handler did, in the order in which it did it (every
  statement sent with \<^verbatim>\<open>client.query\<close> and whether it was accepted, every call of
  \<^verbatim>\<open>applyMigration\<close> and \<^verbatim>\<open>removeMigration\<close>, the release of the client). The log is the
  only addition to the code: it makes the order of the effects a value. The pool always
  hands out a client (\<^verbatim>\<open>dbService.getClient()\<close> does not throw).

  The database is a parameter \<open>pg\<close>: it maps a statement and a database state to the
  error with which the statement is rejected, if it is, and the next state.
\<close>

datatype event =
    Query string bool
  | ApplyMigration Migration
  | RemoveMigration string
  | Release

record 'db world =
  w_fs :: filesystem
  w_db :: 'db
  w_log :: "event list"

type_synonym 'db pg = "string \<Rightarrow> 'db \<Rightarrow> error option \<times> 'db"

definition client_query :: "'db pg \<Rightarrow> string \<Rightarrow> 'db world \<Rightarrow> (error + unit) \<times> 'db world" where
  "client_query pg stmt w =
     (case pg stmt (w_db w) of
        (Some e, db') \<Rightarrow> (Inl e, w\<lparr>w_db := db', w_log := w_log w @ [Query stmt False]\<rparr>)
      | (None, db') \<Rightarrow> (Inr (), w\<lparr>w_db := db', w_log := w_log w @ [Query stmt True]\<rparr>))"

text \<open>
  The \<^verbatim>\<open>catch\<close> block shared by \<^verbatim>\<open>applyMigration\<close> and the revert handler: send
  \<^verbatim>\<open>ROLLBACK\<close>, then rethrow; when \<^verbatim>\<open>ROLLBACK\<close> itself is rejected, its error is the one
  thrown.
\<close>

definition rollback_rethrow ::
  "'db pg \<Rightarrow> (error + 'a) \<times> 'db world \<Rightarrow> (error + 'a) \<times> 'db world" where
  "rollback_rethrow pg r =
     (case r of
        (Inr x, w) \<Rightarrow> (Inr x, w)
      | (Inl e, w) \<Rightarrow>
          (case client_query pg ''ROLLBACK'' w of
             (Inl e', w') \<Rightarrow> (Inl e', w')
           | (Inr _, w') \<Rightarrow> (Inl e, w')))"

text \<open>The \<^verbatim>\<open>finally\<close> block of the handlers: \<^verbatim>\<open>client.release()\<close>.\<close>

definition release :: "(error + 'a) \<times> 'db world \<Rightarrow> (error + 'a) \<times> 'db world" where
  "release r = (case r of (x, w) \<Rightarrow> (x, w\<lparr>w_log := w_log w @ [Release]\<rparr>))"

definition applyMigration ::
  "'db pg \<Rightarrow> Migration \<Rightarrow> 'db world \<Rightarrow> (error + unit) \<times> 'db world" where
  "applyMigration pg migration w =
     rollback_rethrow pg
       (case client_query pg ''BEGIN'' (w\<lparr>w_log := w_log w @ [ApplyMigration migration]\<rparr>) of
          (Inl e, w1) \<Rightarrow> (Inl e, w1)
        | (Inr _, w1) \<Rightarrow>
            (case client_query pg (mig_sql migration) w1 of
               (Inl e, w2) \<Rightarrow> (Inl e, w2)
             | (Inr _, w2) \<Rightarrow> client_query pg ''COMMIT'' w2))"

text \<open>
  The handlers \<^verbatim>\<open>createTable\<close>, \<^verbatim>\<open>createFunction\<close>, \<^verbatim>\<open>createTrigger\<close>, \<^verbatim>\<open>createIndex\<close> and
  \<^verbatim>\<open>alterTable\<close> once the schema service has built the SQL text: record the migration,
  then apply it with a client that is released on every path. The result stands for the
  message, which carries the SQL text and the id and name of the record.
\<close>

definition create_and_apply ::
  "'db pg \<Rightarrow> platform \<Rightarrow> MigrationConfig \<Rightarrow> readings \<Rightarrow> MigrationType \<Rightarrow> string
     \<Rightarrow> string option \<Rightarrow> 'db world \<Rightarrow> (error + Migration) \<times> 'db world" where
  "create_and_apply pg pf cfg rd type sql description w =
     (case createMigration pf cfg rd type sql description (w_fs w) of
        (Inl e, fs1) \<Rightarrow> (Inl e, w\<lparr>w_fs := fs1\<rparr>)
      | (Inr migration, fs1) \<Rightarrow>
          release
            (case applyMigration pg migration (w\<lparr>w_fs := fs1\<rparr>) of
               (Inl e, w1) \<Rightarrow> (Inl e, w1)
             | (Inr _, w1) \<Rightarrow> (Inr migration, w1)))"

text \<open>
  A value of type \<^verbatim>\<open>string | undefined\<close> used as a condition: \<^verbatim>\<open>undefined\<close> and the empty
  string are falsy.
\<close>

definition truthy :: "string option \<Rightarrow> bool" where
  "truthy v = (case v of None \<Rightarrow> False | Some s \<Rightarrow> s \<noteq> [])"

text \<open>
  The loop of the \<^verbatim>\<open>applyMigrations\<close> handler, with its flag \<^verbatim>\<open>shouldApply\<close>; an
  exception of \<^verbatim>\<open>applyMigration\<close> leaves the loop.
\<close>

fun applyMigrations_loop ::
  "'db pg \<Rightarrow> string option \<Rightarrow> bool \<Rightarrow> Migration list \<Rightarrow> 'db world
     \<Rightarrow> (error + unit) \<times> 'db world" where
  "applyMigrations_loop pg fromId shouldApply [] w = (Inr (), w)"
| "applyMigrations_loop pg fromId shouldApply (migration # migrations) w =
     (if Some (mig_id migration) = fromId
      then applyMigrations_loop pg fromId True migrations w
      else if shouldApply
      then (case applyMigration pg migration w of
              (Inl e, w') \<Rightarrow> (Inl e, w')
            | (Inr _, w') \<Rightarrow> applyMigrations_loop pg fromId shouldApply migrations w')
      else applyMigrations_loop pg fromId shouldApply migrations w)"

text \<open>
  Handler \<^verbatim>\<open>applyMigrations\<close>; the result \<open>Inr ()\<close> stands for the message
  \<^verbatim>\<open>Migrations applied successfully\<close>.
\<close>

definition applyMigrations ::
  "'db pg \<Rightarrow> MigrationConfig \<Rightarrow> string option \<Rightarrow> 'db world \<Rightarrow> (error + unit) \<times> 'db world" where
  "applyMigrations pg cfg fromId w =
     (let migrations = getMigrations cfg (w_fs w)
      in release (applyMigrations_loop pg fromId (\<not> truthy fromId) migrations w))"





text \<open>
  What a test double of the applier records: the records \<^verbatim>\<open>applyMigration\<close> was called
  with, in the order of the calls.
\<close>

fun applied_of :: "event list \<Rightarrow> Migration list" where
  "applied_of [] = []"
| "applied_of (ApplyMigration m # es) = m # applied_of es"
| "applied_of (Query stmt ok # es) = applied_of es"
| "applied_of (RemoveMigration i # es) = applied_of es"
| "applied_of (Release # es) = applied_of es"

text \<open>
  A caller that performs \<^verbatim>\<open>createMigration\<close> calls one after the other, each with its own
  readings of the environment, its kind, SQL text and description, and stops at the first
  call that throws. The records created are returned in the order of the calls.
\<close>

fun createMigration_sequence ::
  "platform \<Rightarrow> MigrationConfig \<Rightarrow> (readings \<times> MigrationType \<times> string \<times> string option) list
     \<Rightarrow> filesystem \<Rightarrow> (error + Migration list) \<times> filesystem" where
  "createMigration_sequence pf cfg [] fs = (Inr [], fs)"
| "createMigration_sequence pf cfg ((rd, type, sql, description) # calls) fs =
     (case createMigration pf cfg rd type sql description fs of
        (Inl e, fs1) \<Rightarrow> (Inl e, fs1)
      | (Inr migration, fs1) \<Rightarrow>
          (case createMigration_sequence pf cfg calls fs1 of
             (Inl e, fs2) \<Rightarrow> (Inl e, fs2)
           | (Inr migrations, fs2) \<Rightarrow> (Inr (migration # migrations), fs2)))"

section \<open>Example data\<close>

text \<open>A record with the given id, kind and SQL text, for the concrete runs below.\<close>

definition example_migration :: "string \<Rightarrow> MigrationType \<Rightarrow> string \<Rightarrow> Migration" where
  "example_migration i t s =
     \<lparr> mig_id = i, mig_name = type_string t @ ''_0'', mig_timestamp = 0, mig_sql = s,
       mig_type = t, mig_description = None, mig_checksum = [] \<rparr>"

text \<open>
  Two databases without state for the concrete runs: one accepts every statement, one
  rejects the statements of a table, each with the message given for it, and accepts every
  other.
\<close>

definition accepting_db :: "unit pg" where
  "accepting_db stmt db = (None, db)"


definition example_world :: "filesystem \<Rightarrow> unit world" where
  "example_world fs = \<lparr> w_fs = fs, w_db = (), w_log = [] \<rparr>"

text \<open>
  A stand-in platform: the properties below hold for every digest function, so the concrete
  runs use list reversal in its place and the decimal digits for the ISO date.
\<close>

definition example_platform :: platform where
  "example_platform = \<lparr> sha256_hex = rev, toISOString = toString_nat \<rparr>"

text \<open>
  The file system of a working directory \<^verbatim>\<open>app\<close> whose index holds the records \<open>ms\<close> and whose
  migrations directory holds an SQL file for each of the ids \<open>ids\<close>.
\<close>

definition example_store :: "Migration list \<Rightarrow> string list \<Rightarrow> filesystem" where
  "example_store ms ids =
     (\<lambda>p. if p \<in> set (path_prefixes [''app'', ''migrations'']) then Some Dir
          else if p = [''app'', ''migrations'', ''metadata.json''] then Some (File (Metadata ms))
          else if p \<in> set (map (\<lambda>i. [''app'', ''migrations'', i @ ''.sql'']) ids)
          then Some (File (Text []))
          else None)"

text \<open>The same directories, with neither an index nor an SQL file.\<close>

definition example_dirs :: filesystem where
  "example_dirs = (\<lambda>p. if p \<in> set (path_prefixes [''app'', ''migrations'']) then Some Dir else None)"

text \<open>One clock value for the three readings of a call, and a buffer of random bytes.\<close>

definition example_readings :: "nat \<Rightarrow> 8 word list \<Rightarrow> readings" where
  "example_readings t buf = \<lparr> now_id = t, now_name = t, now_timestamp = t, randomBytes = buf \<rparr>"


section \<open>Properties of the revert synthesis\<close>

lemma split_js_no_sep: "sep \<notin> set a \<Longrightarrow> split_js sep a = [a]"
  by (induction a) auto

lemma split_js_field: "sep \<notin> set a \<Longrightarrow> split_js sep (a @ sep # b) = a # split_js sep b"
  by (induction a) auto

lemma split_js_third:
  assumes "sep \<notin> set a" "sep \<notin> set b" "sep \<notin> set c" "t = [] \<or> hd t = sep"
  shows "index_js (split_js sep (a @ sep # b @ sep # c @ t)) 2 = Some c"
proof (cases t)
  case Nil
  with assms show ?thesis
    by (simp add: split_js_field split_js_no_sep eval_nat_numeral)
next
  case (Cons x r)
  with assms have "t = sep # r" by simp
  with assms show ?thesis
    by (simp add: split_js_field eval_nat_numeral)
qed

text \<open>
  C4. For the record of kind table with the SQL text
  \<^verbatim>\<open>CREATE TABLE tasks (id SERIAL PRIMARY KEY)\<close> the synthesized revert SQL is exactly
  \<^verbatim>\<open>DROP TABLE IF EXISTS tasks\<close>, and for every record of kind alter the synthesis throws
  (the error \<^verbatim>\<open>Revert not implemented for migration type: alter\<close>, the code's form of
  UnsupportedKind).
\<close>

theorem generateRevertSql_table_and_alter:
  "(mig_type m = Table \<and> mig_sql m = ''CREATE TABLE tasks (id SERIAL PRIMARY KEY)''
      \<longrightarrow> generateRevertSql m = Inr ''DROP TABLE IF EXISTS tasks'') \<and>
   (mig_type m = Alter
      \<longrightarrow> generateRevertSql m =
            Inl (Error ''Revert not implemented for migration type: alter''))"
  by (simp add: generateRevertSql_def interpolate_def eval_nat_numeral)

theorem generateRevertSql_table_and_alter_witness:
  "generateRevertSql
     (example_migration ''1'' Table ''CREATE TABLE tasks (id SERIAL PRIMARY KEY)'') =
     Inr ''DROP TABLE IF EXISTS tasks'' \<and>
   generateRevertSql (example_migration ''2'' Alter ''ALTER TABLE tasks ADD COLUMN done BOOLEAN'') =
     Inl (Error ''Revert not implemented for migration type: alter'')"
proof -
  let ?t = "example_migration ''1'' Table ''CREATE TABLE tasks (id SERIAL PRIMARY KEY)''"
  let ?a = "example_migration ''2'' Alter ''ALTER TABLE tasks ADD COLUMN done BOOLEAN''"
  have t: "mig_type ?t = Table \<and> mig_sql ?t = ''CREATE TABLE tasks (id SERIAL PRIMARY KEY)''"
    by (simp add: example_migration_def)
  have a: "mig_type ?a = Alter"
    by (simp add: example_migration_def)
  from generateRevertSql_table_and_alter [of ?t] t
  have "generateRevertSql ?t = Inr ''DROP TABLE IF EXISTS tasks''" by blast
  moreover from generateRevertSql_table_and_alter [of ?a] a
  have "generateRevertSql ?a = Inl (Error ''Revert not implemented for migration type: alter'')"
    by blast
  ultimately show ?thesis by simp
qed

text \<open>
  C5, as the code has it. The table case takes the third field of the SQL text split at
  single spaces and never looks at the keywords: whatever the casing of the first two
  tokens, the result is \<^verbatim>\<open>DROP TABLE IF EXISTS <name>\<close> when the two tokens and the name are
  separated by exactly one space each and the name ends at a space or at the end of the
  text. There is no tolerance of further white space.
\<close>

theorem generateRevertSql_table_single_spaces:
  assumes "mig_type m = Table"
    and "mig_sql m = kw1 @ '' '' @ kw2 @ '' '' @ name @ rest"
    and "CHR '' '' \<notin> set kw1" and "CHR '' '' \<notin> set kw2" and "CHR '' '' \<notin> set name"
    and "rest = [] \<or> hd rest = CHR '' ''"
  shows "generateRevertSql m = Inr (''DROP TABLE IF EXISTS '' @ name)"
proof -
  have "index_js (split_js CHR '' '' (mig_sql m)) 2 = Some name"
    using split_js_third [OF assms(3) assms(4) assms(5) assms(6)] assms(2) by simp
  with assms(1) show ?thesis
    by (simp add: generateRevertSql_def interpolate_def)
qed

theorem generateRevertSql_table_single_spaces_witness:
  "generateRevertSql (example_migration ''1'' Table ''create Table tasks (id INT)'') =
     Inr ''DROP TABLE IF EXISTS tasks''"
proof -
  let ?m = "example_migration ''1'' Table ''create Table tasks (id INT)''"
  have 1: "mig_type ?m = Table"
    by (simp add: example_migration_def)
  have 2: "mig_sql ?m = ''create'' @ '' '' @ ''Table'' @ '' '' @ ''tasks'' @ '' (id INT)''"
    by (simp add: example_migration_def)
  have 3: "CHR '' '' \<notin> set ''create''" and 4: "CHR '' '' \<notin> set ''Table''"
    and 5: "CHR '' '' \<notin> set ''tasks''"
    by simp_all
  have 6: "'' (id INT)'' = [] \<or> hd '' (id INT)'' = CHR '' ''"
    by simp
  from generateRevertSql_table_single_spaces [OF 1 2 3 4 5 6] show ?thesis
    by simp
qed

text \<open>
  C5 as the specification states it fails: with two spaces after \<^verbatim>\<open>CREATE\<close> the third
  field is the keyword \<^verbatim>\<open>TABLE\<close>, and with a line feed before the name it is the start of
  the column list.
\<close>

theorem generateRevertSql_table_whitespace_counterexample:
  "generateRevertSql (example_migration ''1'' Table ''CREATE  TABLE tasks (id INT)'') =
     Inr ''DROP TABLE IF EXISTS TABLE'' \<and>
   generateRevertSql
     (example_migration ''1'' Table (''CREATE TABLE'' @ [CHR 0x0A] @ ''tasks (id INT)'')) =
     Inr ''DROP TABLE IF EXISTS (id''"
  by (simp add: example_migration_def generateRevertSql_def interpolate_def eval_nat_numeral)























section \<open>Properties of the migration store\<close>


lemma readFile_writeFile: "writeFile p c fs = Inr fs' \<Longrightarrow> readFile p fs' = Inr c"
  by (auto simp: writeFile_def readFile_def split: option.splits node.splits if_splits)

lemma writeFile_result:
  "writeFile p c fs = Inr fs' \<Longrightarrow> fs' = fs(p \<mapsto> File c)"
  by (auto simp: writeFile_def split: option.splits node.splits if_splits)

lemma unlink_result: "unlink p fs = Inr fs' \<Longrightarrow> fs' = fs(p := None)"
  by (auto simp: unlink_def split: option.splits node.splits)

lemma getMigrations_Metadata:
  "readFile (metadataFile cfg) fs = Inr (Metadata ms) \<Longrightarrow> getMigrations cfg fs = ms"
  by (simp add: getMigrations_def JSON_parse_def)

lemma path_join_plain:
  assumes "CHR ''/'' \<notin> set name" "name \<noteq> []" "name \<noteq> ''.''" "name \<noteq> ''..''"
  shows "path_join dir name = dir @ [name]"
  using assms by (simp add: path_join_def split_js_no_sep join_segment_def)

lemma getMigrationConfig_paths:
  "migrationsDir (getMigrationConfig wd) = wd @ [''migrations'']"
  "metadataFile (getMigrationConfig wd) = wd @ [''migrations'', ''metadata.json'']"
  by (simp_all add: getMigrationConfig_def path_join_plain)

lemma sql_name_segment: "f @ ''.sql'' \<noteq> [] \<and> f @ ''.sql'' \<noteq> ''.'' \<and> f @ ''.sql'' \<noteq> ''..''"
proof -
  have "4 \<le> length (f @ ''.sql'')" by simp
  then show ?thesis by (metis One_nat_def Suc_1 length_Cons list.size(3) not_less_eq_eq
        numeral_le_one_iff numeral_le_iff semiring_norm(69) semiring_norm(71) le_zero_eq
        zero_neq_numeral)
qed

lemma sql_name_plain:
  "CHR ''/'' \<notin> set i \<Longrightarrow> path_join dir (i @ ''.sql'') = dir @ [i @ ''.sql'']"
  using sql_name_segment [of i] by (intro path_join_plain) simp_all

lemma split_js_nonempty: "split_js sep s \<noteq> []"
  by (induction s) (auto split: list.splits)

lemma split_js_append:
  "sep \<notin> set t \<Longrightarrow>
     split_js sep (s @ t) = butlast (split_js sep s) @ [last (split_js sep s) @ t]"
proof (induction s)
  case Nil
  then show ?case by (simp add: split_js_no_sep)
next
  case (Cons c s)
  obtain w ws where ws: "split_js sep s = w # ws"
    using split_js_nonempty [of sep s] by (cases "split_js sep s") auto
  from Cons ws show ?case
    by (cases ws) (auto split: list.splits)
qed

text \<open>
  Whatever the id, the path of its SQL file ends in a component with the extension
  \<^verbatim>\<open>.sql\<close>.
\<close>

lemma path_join_sql: "\<exists>d f. path_join dir (i @ ''.sql'') = d @ [f @ ''.sql'']"
proof -
  let ?xs = "split_js CHR ''/'' i"
  have "CHR ''/'' \<notin> set ''.sql''" by simp
  then have "split_js CHR ''/'' (i @ ''.sql'') = butlast ?xs @ [last ?xs @ ''.sql'']"
    by (rule split_js_append)
  then have "path_join dir (i @ ''.sql'') =
      join_segment (foldl join_segment dir (butlast ?xs)) (last ?xs @ ''.sql'')"
    by (simp add: path_join_def)
  also have "\<dots> = foldl join_segment dir (butlast ?xs) @ [last ?xs @ ''.sql'']"
    using sql_name_segment [of "last ?xs"] by (simp add: join_segment_def)
  finally show ?thesis by blast
qed

lemma sql_file_not_metadata:
  "path_join (migrationsDir (getMigrationConfig wd)) (i @ ''.sql'') \<noteq>
     metadataFile (getMigrationConfig wd)"
proof -
  obtain d f where "path_join (migrationsDir (getMigrationConfig wd)) (i @ ''.sql'') =
      d @ [f @ ''.sql'']"
    using path_join_sql by blast
  moreover have "last (f @ ''.sql'') = CHR ''l''" by simp
  then have "f @ ''.sql'' \<noteq> ''metadata.json''" by auto
  ultimately show ?thesis
    by (auto simp: getMigrationConfig_paths)
qed

lemma missing_upd_file:
  "fs q = Some (File c0) \<Longrightarrow> missing p (fs(q \<mapsto> File c)) = missing p fs"
  by (auto simp: missing_def)

lemma createMigration_recorded:
  assumes "createMigration pf cfg rd type sql description fs = (Inr m, fs')"
  shows "mig_checksum m = sha256_hex pf (mig_sql m) \<and> mig_sql m = sql \<and>
         (\<exists>old. getMigrations cfg fs' = old @ [m])"
  using assms
  by (auto simp: createMigration_def Let_def generateChecksum_def JSON_parse_def
      split: prod.splits sum.splits content.splits
      dest!: readFile_writeFile intro!: getMigrations_Metadata)

lemma client_query_w_fs: "w_fs (snd (client_query pg stmt w)) = w_fs w"
  by (simp add: client_query_def split: prod.splits option.splits)

lemma rollback_rethrow_w_fs: "w_fs (snd (rollback_rethrow pg (r, w))) = w_fs w"
proof (cases r)
  case (Inr x)
  then show ?thesis by (simp add: rollback_rethrow_def)
next
  case (Inl e)
  obtain r' w' where q: "client_query pg ''ROLLBACK'' w = (r', w')"
    by (cases "client_query pg ''ROLLBACK'' w")
  with client_query_w_fs [of pg "''ROLLBACK''" w] have "w_fs w' = w_fs w" by simp
  with Inl q show ?thesis
    by (cases r') (simp_all add: rollback_rethrow_def)
qed

lemma applyMigration_w_fs: "w_fs (snd (applyMigration pg m w)) = w_fs w"
proof -
  let ?w0 = "w\<lparr>w_log := w_log w @ [ApplyMigration m]\<rparr>"
  let ?body = "case client_query pg ''BEGIN'' ?w0 of
          (Inl e, w1) \<Rightarrow> (Inl e, w1)
        | (Inr _, w1) \<Rightarrow>
            (case client_query pg (mig_sql m) w1 of
               (Inl e, w2) \<Rightarrow> (Inl e, w2)
             | (Inr _, w2) \<Rightarrow> client_query pg ''COMMIT'' w2)"
  have "w_fs (snd ?body) = w_fs ?w0"
    using client_query_w_fs [of pg "''BEGIN''" ?w0]
      client_query_w_fs [of pg "mig_sql m" "snd (client_query pg ''BEGIN'' ?w0)"]
      client_query_w_fs [of pg "''COMMIT''"
        "snd (client_query pg (mig_sql m) (snd (client_query pg ''BEGIN'' ?w0)))"]
    by (auto split: prod.splits sum.splits)
  moreover have "applyMigration pg m w = rollback_rethrow pg (fst ?body, snd ?body)"
    by (simp add: applyMigration_def)
  ultimately show ?thesis
    by (simp only: rollback_rethrow_w_fs) simp
qed

lemma create_and_apply_recorded:
  assumes "create_and_apply pg pf cfg rd type sql description w = (Inr m, w')"
  shows "createMigration pf cfg rd type sql description (w_fs w) = (Inr m, w_fs w')"
proof -
  obtain r1 fs1 where c: "createMigration pf cfg rd type sql description (w_fs w) = (r1, fs1)"
    by (cases "createMigration pf cfg rd type sql description (w_fs w)")
  show ?thesis
  proof (cases r1)
    case (Inl e)
    with assms c show ?thesis by (simp add: create_and_apply_def)
  next
    case (Inr migration)
    let ?w1 = "w\<lparr>w_fs := fs1\<rparr>"
    obtain r2 w2 where a: "applyMigration pg migration ?w1 = (r2, w2)"
      by (cases "applyMigration pg migration ?w1")
    from applyMigration_w_fs [of pg migration ?w1] a have "w_fs w2 = fs1" by simp
    with assms c Inr a show ?thesis
      by (cases r2) (auto simp: create_and_apply_def release_def)
  qed
qed

text \<open>
  C7. Whatever the kind, the SQL text and the description, the record that
  \<^verbatim>\<open>createMigration\<close> returns carries the given SQL text and, as its checksum, the SHA-256
  digest of that text, and the same record is the last entry of the index the call
  leaves. The same holds for the record of a creation handler, which is the record its
  \<^verbatim>\<open>createMigration\<close> call returned.
\<close>

theorem createMigration_checksum:
  "(createMigration pf cfg rd type sql description fs = (Inr m, fs') \<longrightarrow>
      mig_checksum m = sha256_hex pf (mig_sql m) \<and> mig_sql m = sql \<and>
      (\<exists>old. getMigrations cfg fs' = old @ [m])) \<and>
   (create_and_apply pg pf cfg rd type sql description w = (Inr m, w') \<longrightarrow>
      mig_checksum m = sha256_hex pf (mig_sql m) \<and> mig_sql m = sql \<and>
      (\<exists>old. getMigrations cfg (w_fs w') = old @ [m]))"
  using createMigration_recorded [of pf cfg rd type sql description fs m fs']
    createMigration_recorded [OF create_and_apply_recorded,
      of pg pf cfg rd type sql description w m w']
  by blast

lemma mkdir_recursive_empty:
  "mkdir_recursive p Map.empty = Inr (\<lambda>q. if q \<in> set (path_prefixes p) then Some Dir else None)"
  by (simp add: mkdir_recursive_def)

lemma toString_nat_1700000000000: "toString_nat 1700000000000 = ''1700000000000''"
  by (simp add: toString_nat.simps digit_char_def)

lemma toString_hex_example: "toString_hex [0x0a, 0xff, 0x00, 0x10] = ''0aff0010''"
  by (simp add: toString_hex_def hex_byte_def digit_char_def)

theorem createMigration_checksum_witness:
  "\<exists>m fs'. createMigration example_platform (getMigrationConfig [''app''])
             (example_readings 1700000000000 [0x0a, 0xff, 0x00, 0x10]) Table
             ''CREATE TABLE tasks (id SERIAL PRIMARY KEY)'' None Map.empty = (Inr m, fs') \<and>
           mig_id m = ''1700000000000_0aff0010'' \<and>
           mig_checksum m = rev ''CREATE TABLE tasks (id SERIAL PRIMARY KEY)'' \<and>
           getMigrations (getMigrationConfig [''app'']) fs' = [m]"
proof -
  let ?run = "createMigration example_platform (getMigrationConfig [''app''])
             (example_readings 1700000000000 [0x0a, 0xff, 0x00, 0x10]) Table
             ''CREATE TABLE tasks (id SERIAL PRIMARY KEY)'' None Map.empty"
  obtain r fs' where run: "?run = (r, fs')" by (cases ?run)
  have "\<exists>m. r = Inr m \<and> mig_id m = ''1700000000000_0aff0010'' \<and>
             getMigrations (getMigrationConfig [''app'']) fs' = [m]"
    using run
    by (auto simp: createMigration_def ensureMigrationsDir_def access_def mkdir_recursive_empty
        writeFile_def readFile_def JSON_parse_def getMigrationConfig_paths path_join_plain
        example_readings_def generateMigrationId_def toString_nat_1700000000000
        toString_hex_example getMigrations_def Let_def)
  then obtain m where m: "r = Inr m" "mig_id m = ''1700000000000_0aff0010''"
    "getMigrations (getMigrationConfig [''app'']) fs' = [m]" by blast
  from createMigration_checksum [THEN conjunct1, THEN mp, OF run [unfolded m(1)]]
  have "mig_checksum m = rev ''CREATE TABLE tasks (id SERIAL PRIMARY KEY)''"
    by (simp add: example_platform_def)
  with run m show ?thesis by blast
qed

lemma removeMigration_frame_aux:
  "getMigrations (getMigrationConfig workingDir)
     (snd (removeMigration (getMigrationConfig workingDir) migrationId fs)) =
   filter (\<lambda>m. mig_id m \<noteq> migrationId) (getMigrations (getMigrationConfig workingDir) fs)"
proof -
  let ?cfg = "getMigrationConfig workingDir"
  show ?thesis
  proof (cases "readFile (metadataFile ?cfg) fs")
    case (Inl e)
    then show ?thesis by (simp add: removeMigration_def getMigrations_def)
  next
    case (Inr c)
    show ?thesis
    proof (cases c)
      case (Text t)
      with Inr show ?thesis by (simp add: removeMigration_def getMigrations_def JSON_parse_def)
    next
      case (Metadata ms)
      let ?ms' = "filter (\<lambda>m. mig_id m \<noteq> migrationId) ms"
      let ?fs1 = "fs(metadataFile ?cfg \<mapsto> File (Metadata ?ms'))"
      let ?sql = "path_join (migrationsDir ?cfg) (migrationId @ ''.sql'')"
      from Inr Metadata have w: "writeFile (metadataFile ?cfg) (Metadata ?ms') fs = Inr ?fs1"
        by (auto simp: readFile_def writeFile_def split: option.splits node.splits)
      have r1: "readFile (metadataFile ?cfg) ?fs1 = Inr (Metadata ?ms')"
        by (simp add: readFile_def)
      have r2: "readFile (metadataFile ?cfg) (?fs1(?sql := None)) = Inr (Metadata ?ms')"
        using sql_file_not_metadata [of workingDir migrationId] r1
        by (simp add: readFile_def)
      have "getMigrations ?cfg (snd (removeMigration ?cfg migrationId fs)) = ?ms'"
        using Inr Metadata w r1 r2
        by (auto simp: removeMigration_def JSON_parse_def split: sum.splits
            dest!: unlink_result intro!: getMigrations_Metadata)
      moreover from Inr Metadata have "getMigrations ?cfg fs = ms"
        by (simp add: getMigrations_Metadata)
      ultimately show ?thesis by simp
    qed
  qed
qed


text \<open>
  C10. \<^verbatim>\<open>removeMigration(id)\<close> leaves in the index exactly the records whose id differs from
  its argument, each unchanged and in their former order, whatever the state of the store
  and whether or not the call goes on to fail.
\<close>

theorem removeMigration_frame:
  "getMigrations (getMigrationConfig workingDir)
     (snd (removeMigration (getMigrationConfig workingDir) migrationId fs)) =
   filter (\<lambda>m. mig_id m \<noteq> migrationId) (getMigrations (getMigrationConfig workingDir) fs)"
  by (rule removeMigration_frame_aux)

lemma readFile_example_store:
  "readFile (metadataFile (getMigrationConfig [''app''])) (example_store ms ids) = Inr (Metadata ms)"
  by (simp add: readFile_def example_store_def getMigrationConfig_paths path_join_plain)

lemma getMigrations_example_store:
  "getMigrations (getMigrationConfig [''app'']) (example_store ms ids) = ms"
  by (simp add: getMigrations_Metadata readFile_example_store)

theorem removeMigration_frame_witness:
  "getMigrations (getMigrationConfig [''app''])
     (snd (removeMigration (getMigrationConfig [''app'']) ''b''
        (example_store
           [example_migration ''a'' Table ''CREATE TABLE t (id INT)'',
            example_migration ''b'' Index ''CREATE INDEX i ON t (id)'',
            example_migration ''c'' Alter ''ALTER TABLE t ADD COLUMN n INT'']
           [''a'', ''b'', ''c'']))) =
   [example_migration ''a'' Table ''CREATE TABLE t (id INT)'',
    example_migration ''c'' Alter ''ALTER TABLE t ADD COLUMN n INT'']"
  using removeMigration_frame [of "[''app'']" "''b''"
      "example_store
           [example_migration ''a'' Table ''CREATE TABLE t (id INT)'',
            example_migration ''b'' Index ''CREATE INDEX i ON t (id)'',
            example_migration ''c'' Alter ''ALTER TABLE t ADD COLUMN n INT'']
           [''a'', ''b'', ''c'']"]
  by (simp add: getMigrations_example_store example_migration_def)

lemma removeMigration_outcome_aux:
  assumes "readFile (metadataFile (getMigrationConfig workingDir)) fs = Inr (Metadata ms)"
  shows "(fst (removeMigration (getMigrationConfig workingDir) migrationId fs) = Inr ()) =
           (\<exists>c. fs (path_join (migrationsDir (getMigrationConfig workingDir))
                       (migrationId @ ''.sql'')) = Some (File c)) \<and>
         (fs (path_join (migrationsDir (getMigrationConfig workingDir))
                (migrationId @ ''.sql'')) = None \<longrightarrow>
            fst (removeMigration (getMigrationConfig workingDir) migrationId fs) =
              Inl (missing
                     (path_join (migrationsDir (getMigrationConfig workingDir))
                        (migrationId @ ''.sql'')) fs)) \<and>
         getMigrations (getMigrationConfig workingDir)
           (snd (removeMigration (getMigrationConfig workingDir) migrationId fs)) =
           filter (\<lambda>m. mig_id m \<noteq> migrationId) ms \<and>
         snd (removeMigration (getMigrationConfig workingDir) migrationId fs) =
           (if \<exists>c. fs (path_join (migrationsDir (getMigrationConfig workingDir))
                         (migrationId @ ''.sql'')) = Some (File c)
            then (fs(metadataFile (getMigrationConfig workingDir) \<mapsto>
                       File (Metadata (filter (\<lambda>m. mig_id m \<noteq> migrationId) ms))))
                   (path_join (migrationsDir (getMigrationConfig workingDir))
                      (migrationId @ ''.sql'') := None)
            else fs(metadataFile (getMigrationConfig workingDir) \<mapsto>
                      File (Metadata (filter (\<lambda>m. mig_id m \<noteq> migrationId) ms))))"
proof -
  let ?cfg = "getMigrationConfig workingDir"
  let ?ms' = "filter (\<lambda>m. mig_id m \<noteq> migrationId) ms"
  let ?fs1 = "fs(metadataFile ?cfg \<mapsto> File (Metadata ?ms'))"
  let ?sql = "path_join (migrationsDir ?cfg) (migrationId @ ''.sql'')"
  from assms have old: "fs (metadataFile ?cfg) = Some (File (Metadata ms))"
    by (auto simp: readFile_def split: option.splits node.splits)
  then have w: "writeFile (metadataFile ?cfg) (Metadata ?ms') fs = Inr ?fs1"
    by (simp add: writeFile_def)
  have ne: "?sql \<noteq> metadataFile ?cfg"
    by (rule sql_file_not_metadata)
  then have same: "?fs1 ?sql = fs ?sql" by simp
  have miss: "missing ?sql ?fs1 = missing ?sql fs"
    using old by (rule missing_upd_file)
  have run: "removeMigration ?cfg migrationId fs =
      (case unlink ?sql ?fs1 of Inl e \<Rightarrow> (Inl e, ?fs1) | Inr fs2 \<Rightarrow> (Inr (), fs2))"
    using assms w by (simp add: removeMigration_def JSON_parse_def)
  have 1: "(fst (removeMigration ?cfg migrationId fs) = Inr ()) = (\<exists>c. fs ?sql = Some (File c))"
    unfolding run unlink_def same
    by (auto split: option.splits node.splits)
  have 2: "fs ?sql = None \<longrightarrow>
      fst (removeMigration ?cfg migrationId fs) = Inl (missing ?sql fs)"
    unfolding run unlink_def same miss
    by (auto split: option.splits node.splits)
  have 3: "getMigrations ?cfg (snd (removeMigration ?cfg migrationId fs)) = ?ms'"
    using removeMigration_frame_aux [of workingDir migrationId fs] assms
    by (simp add: getMigrations_Metadata)
  have 4: "snd (removeMigration ?cfg migrationId fs) =
      (if \<exists>c. fs ?sql = Some (File c) then ?fs1(?sql := None) else ?fs1)"
    unfolding run unlink_def same
    by (auto split: option.splits node.splits)
  from 1 2 3 4 show ?thesis by blast
qed

text \<open>
  C2, as the code has it. \<^verbatim>\<open>removeMigration\<close> makes no test for a missing entry. On a
  readable index it rewrites the index without the entries of the given id and then
  unlinks the SQL file of the id, at the path that \<^verbatim>\<open>path.join\<close> gives for it: it succeeds
  exactly when that file exists, whether or not the index had an entry, and then the file
  is gone and nothing else but the index has changed; when nothing exists at the path it
  fails with the error of \<^verbatim>\<open>unlink\<close> for a missing file, the index having been rewritten
  already. The path is the normalised one: for the id \<^verbatim>\<open>../x\<close> it is \<^verbatim>\<open>x.sql\<close> in the working
  directory.
\<close>

theorem removeMigration_outcome:
  assumes "readFile (metadataFile (getMigrationConfig workingDir)) fs = Inr (Metadata ms)"
  shows "(fst (removeMigration (getMigrationConfig workingDir) migrationId fs) = Inr ()) =
           (\<exists>c. fs (path_join (migrationsDir (getMigrationConfig workingDir))
                       (migrationId @ ''.sql'')) = Some (File c)) \<and>
         (fs (path_join (migrationsDir (getMigrationConfig workingDir))
                (migrationId @ ''.sql'')) = None \<longrightarrow>
            fst (removeMigration (getMigrationConfig workingDir) migrationId fs) =
              Inl (missing
                     (path_join (migrationsDir (getMigrationConfig workingDir))
                        (migrationId @ ''.sql'')) fs)) \<and>
         getMigrations (getMigrationConfig workingDir)
           (snd (removeMigration (getMigrationConfig workingDir) migrationId fs)) =
           filter (\<lambda>m. mig_id m \<noteq> migrationId) ms \<and>
         snd (removeMigration (getMigrationConfig workingDir) migrationId fs) =
           (if \<exists>c. fs (path_join (migrationsDir (getMigrationConfig workingDir))
                         (migrationId @ ''.sql'')) = Some (File c)
            then (fs(metadataFile (getMigrationConfig workingDir) \<mapsto>
                       File (Metadata (filter (\<lambda>m. mig_id m \<noteq> migrationId) ms))))
                   (path_join (migrationsDir (getMigrationConfig workingDir))
                      (migrationId @ ''.sql'') := None)
            else fs(metadataFile (getMigrationConfig workingDir) \<mapsto>
                      File (Metadata (filter (\<lambda>m. mig_id m \<noteq> migrationId) ms))))"
  using assms by (rule removeMigration_outcome_aux)

lemma example_store_sql_file:
  assumes "CHR ''/'' \<notin> set i"
  shows "example_store ms ids
           (path_join (migrationsDir (getMigrationConfig [''app''])) (i @ ''.sql'')) =
         (if i \<in> set ids then Some (File (Text [])) else None)"
proof -
  have "last (i @ ''.sql'') = CHR ''l''" by simp
  then have "i @ ''.sql'' \<noteq> ''metadata.json''" by auto
  then show ?thesis
    by (auto simp: example_store_def getMigrationConfig_paths sql_name_plain [OF assms])
qed

lemma example_store_missing:
  assumes "CHR ''/'' \<notin> set i"
  shows "missing (path_join (migrationsDir (getMigrationConfig [''app''])) (i @ ''.sql''))
           (example_store ms ids) =
         FsError ENOENT [''app'', ''migrations'', i @ ''.sql'']"
  by (auto simp: missing_def example_store_def getMigrationConfig_paths
      sql_name_plain [OF assms])

theorem removeMigration_outcome_witness:
  "fst (removeMigration (getMigrationConfig [''app'']) ''a''
          (example_store [example_migration ''a'' Table ''CREATE TABLE t (id INT)''] [''a''])) =
     Inr () \<and>
   getMigrations (getMigrationConfig [''app''])
     (snd (removeMigration (getMigrationConfig [''app'']) ''a''
          (example_store [example_migration ''a'' Table ''CREATE TABLE t (id INT)''] [''a'']))) =
     [] \<and>
   snd (removeMigration (getMigrationConfig [''app'']) ''a''
          (example_store [example_migration ''a'' Table ''CREATE TABLE t (id INT)''] [''a'']))
     [''app'', ''migrations'', ''a.sql''] = None \<and>
   fst (removeMigration (getMigrationConfig [''app'']) ''b''
          (example_store [example_migration ''a'' Table ''CREATE TABLE t (id INT)''] [''a''])) =
     Inl (FsError ENOENT [''app'', ''migrations'', ''b.sql'']) \<and>
   fst (removeMigration (getMigrationConfig [''app'']) ''../x''
          ((example_store [] [])([''app'', ''x.sql''] \<mapsto> File (Text [])))) = Inr () \<and>
   snd (removeMigration (getMigrationConfig [''app'']) ''../x''
          ((example_store [] [])([''app'', ''x.sql''] \<mapsto> File (Text []))))
     [''app'', ''x.sql''] = None"
proof -
  let ?cfg = "getMigrationConfig [''app'']"
  let ?fs = "example_store [example_migration ''a'' Table ''CREATE TABLE t (id INT)''] [''a'']"
  let ?fx = "(example_store [] [])([''app'', ''x.sql''] \<mapsto> File (Text []))"
  have idx_x: "readFile (metadataFile ?cfg) ?fx = Inr (Metadata [])"
    by (simp add: readFile_def example_store_def getMigrationConfig_paths)
  have px: "path_join (migrationsDir ?cfg) (''../x'' @ ''.sql'') = [''app'', ''x.sql'']"
    by (simp add: getMigrationConfig_paths path_join_def join_segment_def)
  have fx: "?fx (path_join (migrationsDir ?cfg) (''../x'' @ ''.sql'')) = Some (File (Text []))"
    unfolding px by simp
  note x = removeMigration_outcome [OF idx_x, of "''../x''"]
  from x [THEN conjunct1] fx have x1: "fst (removeMigration ?cfg ''../x'' ?fx) = Inr ()"
    by simp
  from x [THEN conjunct2, THEN conjunct2, THEN conjunct2] fx
  have x4: "snd (removeMigration ?cfg ''../x'' ?fx)
      (path_join (migrationsDir ?cfg) (''../x'' @ ''.sql'')) = None"
    by simp
  have idx: "readFile (metadataFile ?cfg) ?fs =
      Inr (Metadata [example_migration ''a'' Table ''CREATE TABLE t (id INT)''])"
    by (rule readFile_example_store)
  have pa: "path_join (migrationsDir ?cfg) (''a'' @ ''.sql'') = [''app'', ''migrations'', ''a.sql'']"
    and pb: "path_join (migrationsDir ?cfg) (''b'' @ ''.sql'') = [''app'', ''migrations'', ''b.sql'']"
    by (simp_all add: getMigrationConfig_paths path_join_plain)
  have fa: "?fs (path_join (migrationsDir ?cfg) (''a'' @ ''.sql'')) = Some (File (Text []))"
    and fb: "?fs (path_join (migrationsDir ?cfg) (''b'' @ ''.sql'')) = None"
    by (subst example_store_sql_file, simp, simp)+
  have mb: "missing (path_join (migrationsDir ?cfg) (''b'' @ ''.sql'')) ?fs =
      FsError ENOENT [''app'', ''migrations'', ''b'' @ ''.sql'']"
    by (rule example_store_missing) simp
  note a = removeMigration_outcome [OF idx, of "''a''"]
  note b = removeMigration_outcome [OF idx, of "''b''"]
  from a [THEN conjunct1] fa have a1: "fst (removeMigration ?cfg ''a'' ?fs) = Inr ()"
    by simp
  from a [THEN conjunct2, THEN conjunct2, THEN conjunct1]
  have a3: "getMigrations ?cfg (snd (removeMigration ?cfg ''a'' ?fs)) = []"
    by (simp add: example_migration_def)
  from a [THEN conjunct2, THEN conjunct2, THEN conjunct2] fa
  have a4: "snd (removeMigration ?cfg ''a'' ?fs) (path_join (migrationsDir ?cfg) (''a'' @ ''.sql'')) =
      None"
    by simp
  from b [THEN conjunct2, THEN conjunct1] fb mb
  have b2: "fst (removeMigration ?cfg ''b'' ?fs) =
      Inl (FsError ENOENT [''app'', ''migrations'', ''b'' @ ''.sql''])"
    by simp
  from a1 a3 a4 [unfolded pa] b2 x1 x4 [unfolded px] show ?thesis
    by simp
qed

text \<open>
  C2 as the specification states it fails both ways: with no index entry for \<^verbatim>\<open>x\<close> but a
  file \<^verbatim>\<open>x.sql\<close> the call succeeds, and with an index entry for \<^verbatim>\<open>x\<close> but no file it fails.
\<close>

theorem removeMigration_not_found_counterexample:
  "fst (removeMigration (getMigrationConfig [''app'']) ''x'' (example_store [] [''x''])) = Inr () \<and>
   fst (removeMigration (getMigrationConfig [''app'']) ''x''
          (example_store [example_migration ''x'' Table ''CREATE TABLE t (id INT)''] [])) =
     Inl (FsError ENOENT [''app'', ''migrations'', ''x.sql''])"
proof -
  let ?cfg = "getMigrationConfig [''app'']"
  have 1: "readFile (metadataFile ?cfg) (example_store [] [''x'']) = Inr (Metadata [])"
    by (rule readFile_example_store)
  have 2: "readFile (metadataFile ?cfg)
      (example_store [example_migration ''x'' Table ''CREATE TABLE t (id INT)''] []) =
      Inr (Metadata [example_migration ''x'' Table ''CREATE TABLE t (id INT)''])"
    by (rule readFile_example_store)
  have 3: "example_store [] [''x''] (path_join (migrationsDir ?cfg) (''x'' @ ''.sql'')) =
      Some (File (Text []))"
    by (subst example_store_sql_file, simp, simp)
  have 4: "example_store [example_migration ''x'' Table ''CREATE TABLE t (id INT)''] []
      (path_join (migrationsDir ?cfg) (''x'' @ ''.sql'')) = None"
    by (subst example_store_sql_file, simp, simp)
  have 5: "missing (path_join (migrationsDir ?cfg) (''x'' @ ''.sql''))
      (example_store [example_migration ''x'' Table ''CREATE TABLE t (id INT)''] []) =
      FsError ENOENT [''app'', ''migrations'', ''x'' @ ''.sql'']"
    by (rule example_store_missing) simp
  from removeMigration_outcome_aux [OF 1, of "''x''"] 3
  have "fst (removeMigration ?cfg ''x'' (example_store [] [''x''])) = Inr ()"
    by simp
  moreover from removeMigration_outcome_aux [OF 2, of "''x''"] 4 5
  have "fst (removeMigration ?cfg ''x''
          (example_store [example_migration ''x'' Table ''CREATE TABLE t (id INT)''] [])) =
     Inl (FsError ENOENT [''app'', ''migrations'', ''x.sql''])"
    by simp
  ultimately show ?thesis by (rule conjI)
qed

text \<open>
  C3, as the code has it. \<^verbatim>\<open>ensureMigrationsDir\<close> looks at the directory alone. When the
  directory is accessible the call changes nothing; when it is not and the call succeeds,
  the directory exists afterwards and the index file holds the empty index; and after a
  successful call a second call changes nothing.
\<close>

theorem ensureMigrationsDir_effect:
  "(access (migrationsDir cfg) fs = Inr () \<longrightarrow> ensureMigrationsDir cfg fs = (Inr (), fs)) \<and>
   (access (migrationsDir cfg) fs \<noteq> Inr () \<and> ensureMigrationsDir cfg fs = (Inr (), fs') \<longrightarrow>
      fs' (migrationsDir cfg) = Some Dir \<and>
      fs' (metadataFile cfg) = Some (File (Metadata []))) \<and>
   (ensureMigrationsDir cfg fs = (Inr (), fs') \<longrightarrow> ensureMigrationsDir cfg fs' = (Inr (), fs'))"
proof -
  have self: "p \<in> set (path_prefixes p)" for p :: path
    by (induction p) auto
  have mk: "mkdir_recursive p fs = Inr fs1 \<Longrightarrow> fs1 p = Some Dir" for p fs1
    using self [of p] by (auto simp: mkdir_recursive_def split: if_splits)
  have 1: "access (migrationsDir cfg) fs = Inr () \<longrightarrow> ensureMigrationsDir cfg fs = (Inr (), fs)"
    by (simp add: ensureMigrationsDir_def)
  have 2: "fs' (migrationsDir cfg) = Some Dir \<and> fs' (metadataFile cfg) = Some (File (Metadata []))"
    if "access (migrationsDir cfg) fs \<noteq> Inr ()" "ensureMigrationsDir cfg fs = (Inr (), fs')"
  proof -
    from that obtain fs1 where fs1: "mkdir_recursive (migrationsDir cfg) fs = Inr fs1"
      and w: "writeFile (metadataFile cfg) (Metadata []) fs1 = Inr fs'"
      by (auto simp: ensureMigrationsDir_def split: sum.splits)
    from mk [OF fs1] w show ?thesis
      by (auto simp: writeFile_def split: option.splits node.splits if_splits)
  qed
  have 3: "ensureMigrationsDir cfg fs' = (Inr (), fs')" if "ensureMigrationsDir cfg fs = (Inr (), fs')"
  proof (cases "access (migrationsDir cfg) fs = Inr ()")
    case True
    with that show ?thesis by (simp add: ensureMigrationsDir_def)
  next
    case False
    from 2 [OF False that] show ?thesis
      by (simp add: ensureMigrationsDir_def access_def)
  qed
  from 1 2 3 show ?thesis by blast
qed

theorem ensureMigrationsDir_effect_witness:
  "fst (ensureMigrationsDir (getMigrationConfig [''app'']) Map.empty) = Inr () \<and>
   snd (ensureMigrationsDir (getMigrationConfig [''app'']) Map.empty) [''app'', ''migrations''] =
     Some Dir \<and>
   snd (ensureMigrationsDir (getMigrationConfig [''app'']) Map.empty)
     [''app'', ''migrations'', ''metadata.json''] = Some (File (Metadata [])) \<and>
   ensureMigrationsDir (getMigrationConfig [''app''])
     (snd (ensureMigrationsDir (getMigrationConfig [''app'']) Map.empty)) =
     (Inr (), snd (ensureMigrationsDir (getMigrationConfig [''app'']) Map.empty)) \<and>
   ensureMigrationsDir (getMigrationConfig [''app'']) (example_store [] []) =
     (Inr (), example_store [] [])"
proof -
  let ?cfg = "getMigrationConfig [''app'']"
  let ?fs' = "snd (ensureMigrationsDir ?cfg Map.empty)"
  have a: "access (migrationsDir ?cfg) Map.empty \<noteq> Inr ()"
    by (simp add: access_def)
  have ok: "fst (ensureMigrationsDir ?cfg Map.empty) = Inr ()"
    by (simp add: ensureMigrationsDir_def access_def mkdir_recursive_empty writeFile_def
        getMigrationConfig_paths path_join_plain)
  then have run: "ensureMigrationsDir ?cfg Map.empty = (Inr (), ?fs')"
    by (simp add: prod_eq_iff)
  have b: "access (migrationsDir ?cfg) (example_store [] []) = Inr ()"
    by (simp add: access_def example_store_def getMigrationConfig_paths path_join_plain)
  note eff = ensureMigrationsDir_effect [of ?cfg Map.empty ?fs']
  note eff' = ensureMigrationsDir_effect [of ?cfg "example_store [] []"]
  from eff a run have "?fs' (migrationsDir ?cfg) = Some Dir"
    "?fs' (metadataFile ?cfg) = Some (File (Metadata []))"
    "ensureMigrationsDir ?cfg ?fs' = (Inr (), ?fs')"
    by blast+
  moreover from eff' b have "ensureMigrationsDir ?cfg (example_store [] []) = (Inr (), example_store [] [])"
    by blast
  ultimately show ?thesis using ok
    by (simp add: getMigrationConfig_paths path_join_plain)
qed

text \<open>
  C3 as the specification states it fails from the state in which the directory exists and
  the index file does not: the call succeeds, changes nothing, and the index file is still
  absent.
\<close>

theorem ensureMigrationsDir_missing_index_counterexample:
  "ensureMigrationsDir (getMigrationConfig [''app'']) example_dirs = (Inr (), example_dirs) \<and>
   example_dirs (migrationsDir (getMigrationConfig [''app''])) = Some Dir \<and>
   example_dirs (metadataFile (getMigrationConfig [''app''])) = None"
  by (simp add: ensureMigrationsDir_def access_def example_dirs_def getMigrationConfig_paths
      path_join_plain)

section \<open>Properties of the handlers\<close>


lemma applied_of_append: "applied_of (xs @ ys) = applied_of xs @ applied_of ys"
  by (induction xs rule: applied_of.induct) simp_all

lemma applied_of_client_query:
  "client_query pg stmt w = (r, w') \<Longrightarrow> applied_of (w_log w') = applied_of (w_log w)"
  by (auto simp: client_query_def applied_of_append split: prod.splits option.splits)

lemma applied_of_rollback_rethrow:
  "rollback_rethrow pg (r0, w0) = (r, w') \<Longrightarrow> applied_of (w_log w') = applied_of (w_log w0)"
  by (auto simp: rollback_rethrow_def split: sum.splits prod.splits
      dest: applied_of_client_query)


lemma applied_of_applyMigration:
  assumes "applyMigration pg m w = (r, w')"
  shows "applied_of (w_log w') = applied_of (w_log w) @ [m]"
proof -
  let ?w0 = "w\<lparr>w_log := w_log w @ [ApplyMigration m]\<rparr>"
  let ?body = "case client_query pg ''BEGIN'' ?w0 of
          (Inl e, w1) \<Rightarrow> (Inl e, w1)
        | (Inr _, w1) \<Rightarrow>
            (case client_query pg (mig_sql m) w1 of
               (Inl e, w2) \<Rightarrow> (Inl e, w2)
             | (Inr _, w2) \<Rightarrow> client_query pg ''COMMIT'' w2)"
  obtain r0 w0 where body: "?body = (r0, w0)"
    by (cases ?body)
  have "applied_of (w_log w0) = applied_of (w_log ?w0)"
  proof (cases "client_query pg ''BEGIN'' ?w0")
    case (Pair r1 w1)
    note b = this
    from applied_of_client_query [OF b]
    have 1: "applied_of (w_log w1) = applied_of (w_log ?w0)" .
    show ?thesis
    proof (cases r1)
      case (Inl e)
      with body b have "w0 = w1" by simp
      with 1 show ?thesis by simp
    next
      case (Inr u)
      show ?thesis
      proof (cases "client_query pg (mig_sql m) w1")
        case (Pair r2 w2)
        from applied_of_client_query [OF Pair]
        have 2: "applied_of (w_log w2) = applied_of (w_log w1)" .
        show ?thesis
        proof (cases r2)
          case (Inl e)
          with body b Inr Pair have "w0 = w2" by simp
          with 1 2 show ?thesis by simp
        next
          case (Inr v)
          with body b \<open>r1 = Inr u\<close> Pair have "client_query pg ''COMMIT'' w2 = (r0, w0)"
            by simp
          from applied_of_client_query [OF this] 1 2 show ?thesis by simp
        qed
      qed
    qed
  qed
  moreover from assms body have "rollback_rethrow pg (r0, w0) = (r, w')"
    by (simp add: applyMigration_def)
  then have "applied_of (w_log w') = applied_of (w_log w0)"
    by (rule applied_of_rollback_rethrow)
  ultimately show ?thesis
    by (simp add: applied_of_append)
qed

lemma applyMigrations_loop_prefix:
  "applyMigrations_loop pg fromId b ms w = (r, w') \<Longrightarrow>
     \<exists>n. applied_of (w_log w') = applied_of (w_log w) @
            take n (filter (\<lambda>m. Some (mig_id m) \<noteq> fromId)
                      (if b then ms else dropWhile (\<lambda>m. Some (mig_id m) \<noteq> fromId) ms))"
proof (induction ms arbitrary: b w)
  case Nil
  then show ?case by simp
next
  case (Cons m ms)
  show ?case
  proof (cases "Some (mig_id m) = fromId")
    case True
    with Cons.prems have "applyMigrations_loop pg fromId True ms w = (r, w')" by simp
    from Cons.IH [OF this] True show ?thesis by auto
  next
    case False
    note ne = this
    show ?thesis
    proof (cases b)
      case False
      with ne Cons.prems have "applyMigrations_loop pg fromId False ms w = (r, w')" by simp
      from Cons.IH [OF this] ne False show ?thesis by auto
    next
      case True
      obtain r1 w1 where ap: "applyMigration pg m w = (r1, w1)"
        by (cases "applyMigration pg m w")
      note one = applied_of_applyMigration [OF ap]
      show ?thesis
      proof (cases r1)
        case (Inl e)
        with ne True ap Cons.prems have "w' = w1" by simp
        with one ne True show ?thesis
          by (intro exI [of _ "Suc 0"]) simp
      next
        case (Inr u)
        with ne True ap Cons.prems have "applyMigrations_loop pg fromId True ms w1 = (r, w')"
          by simp
        from Cons.IH [OF this] obtain n where
          "applied_of (w_log w') = applied_of (w_log w1) @
             take n (filter (\<lambda>m. Some (mig_id m) \<noteq> fromId) ms)"
          by auto
        with one ne True show ?thesis
          by (intro exI [of _ "Suc n"]) simp
      qed
    qed
  qed
qed

lemma applyMigrations_loop_success:
  "applyMigrations_loop pg fromId b ms w = (Inr u, w') \<Longrightarrow>
     applied_of (w_log w') = applied_of (w_log w) @
       filter (\<lambda>m. Some (mig_id m) \<noteq> fromId)
         (if b then ms else dropWhile (\<lambda>m. Some (mig_id m) \<noteq> fromId) ms)"
proof (induction ms arbitrary: b w)
  case Nil
  then show ?case by simp
next
  case (Cons m ms)
  show ?case
  proof (cases "Some (mig_id m) = fromId")
    case True
    with Cons.prems have "applyMigrations_loop pg fromId True ms w = (Inr u, w')" by simp
    from Cons.IH [OF this] True show ?thesis by auto
  next
    case False
    note ne = this
    show ?thesis
    proof (cases b)
      case False
      with ne Cons.prems have "applyMigrations_loop pg fromId False ms w = (Inr u, w')" by simp
      from Cons.IH [OF this] ne False show ?thesis by auto
    next
      case True
      obtain r1 w1 where ap: "applyMigration pg m w = (r1, w1)"
        by (cases "applyMigration pg m w")
      note one = applied_of_applyMigration [OF ap]
      show ?thesis
      proof (cases r1)
        case (Inl e)
        with ne True ap Cons.prems show ?thesis by simp
      next
        case (Inr v)
        with ne True ap Cons.prems have "applyMigrations_loop pg fromId True ms w1 = (Inr u, w')"
          by simp
        from Cons.IH [OF this] one ne True show ?thesis by simp
      qed
    qed
  qed
qed

lemma client_query_accepted:
  assumes "\<forall>stmt db. fst (pg stmt db) = None"
  shows "client_query pg stmt v =
    (Inr (), v\<lparr>w_db := snd (pg stmt (w_db v)), w_log := w_log v @ [Query stmt True]\<rparr>)"
  using assms [rule_format, of stmt "w_db v"]
  by (cases "pg stmt (w_db v)") (simp add: client_query_def)

lemma applyMigration_accepted:
  assumes "\<forall>stmt db. fst (pg stmt db) = None"
  shows "fst (applyMigration pg m w) = Inr ()"
  by (simp add: applyMigration_def rollback_rethrow_def client_query_accepted [OF assms])

lemma applyMigrations_loop_accepted:
  assumes "\<forall>stmt db. fst (pg stmt db) = None"
  shows "fst (applyMigrations_loop pg fromId b ms w) = Inr ()"
proof (induction ms arbitrary: b w)
  case Nil
  show ?case by simp
next
  case (Cons m ms)
  obtain w1 where "applyMigration pg m w = (Inr (), w1)"
    using applyMigration_accepted [OF assms, where m = m and w = w]
    by (cases "applyMigration pg m w") simp
  with Cons show ?case by simp
qed

lemma drop_after_id:
  assumes "distinct (map mig_id ms)" "k < length ms"
  shows "filter (\<lambda>m. mig_id m \<noteq> mig_id (ms ! k))
           (dropWhile (\<lambda>m. mig_id m \<noteq> mig_id (ms ! k)) ms) = drop (Suc k) ms"
  using assms
proof (induction ms arbitrary: k)
  case Nil
  then show ?case by simp
next
  case (Cons m ms)
  show ?case
  proof (cases k)
    case 0
    from Cons.prems(1) have "mig_id m \<notin> mig_id ` set ms" by simp
    then have "\<forall>x \<in> set ms. mig_id x \<noteq> mig_id m" by (metis imageI)
    with 0 show ?thesis by (simp add: filter_id_conv)
  next
    case (Suc j)
    with Cons.prems have j: "j < length ms" "distinct (map mig_id ms)" by simp_all
    from j(1) have "ms ! j \<in> set ms" by simp
    moreover from Cons.prems(1) have "mig_id m \<notin> mig_id ` set ms" by simp
    ultimately have "mig_id m \<noteq> mig_id (ms ! j)" by (metis imageI)
    with Suc Cons.IH [OF j(2) j(1)] show ?thesis by simp
  qed
qed

lemma w_fs_example_world: "w_fs (example_world fs) = fs"
  by (simp add: example_world_def)

text \<open>
  The selection the loop makes for a non-empty \<open>fromId\<close>: when the handler returns normally,
  the records passed to \<^verbatim>\<open>applyMigration\<close> are those that follow the first record whose id
  is \<open>fromId\<close> and whose id differs from \<open>fromId\<close>. On an index with distinct ids these are
  the records after the matching position (\<open>drop_after_id\<close>).
\<close>

lemma applyMigrations_selection:
  assumes "getMigrations cfg (w_fs w) = ms" and "fromId \<noteq> []"
    and "applyMigrations pg cfg (Some fromId) w = (Inr (), w')"
  shows "applied_of (w_log w') =
           applied_of (w_log w) @
             filter (\<lambda>m. mig_id m \<noteq> fromId) (dropWhile (\<lambda>m. mig_id m \<noteq> fromId) ms)"
proof -
  obtain r0 w0 where loop: "applyMigrations_loop pg (Some fromId) False ms w = (r0, w0)"
    by (cases "applyMigrations_loop pg (Some fromId) False ms w")
  with assms have fin: "r0 = Inr ()" "w' = w0\<lparr>w_log := w_log w0 @ [Release]\<rparr>"
    by (auto simp: applyMigrations_def release_def truthy_def)
  from applyMigrations_loop_success [of pg "Some fromId" False ms w "()" w0] loop fin
  show ?thesis
    by (simp add: applied_of_append)
qed

text \<open>
  C1. The handler does not do what the claim says at this input: the index holds three
  records with the ids \<^verbatim>\<open>1\<close>, \<^verbatim>\<open>2\<close> and \<^verbatim>\<open>3\<close>, \<open>fromId\<close> is \<^verbatim>\<open>2\<close>, and the database accepts
  every statement. The handler returns normally and has called \<^verbatim>\<open>applyMigration\<close> on the
  third record only. The record whose id is \<open>fromId\<close> sets \<^verbatim>\<open>shouldApply\<close> and is then passed
  over by \<^verbatim>\<open>continue\<close>, whereas the claim, and the description the handler gives of its own
  parameter (\<^verbatim>\<open>Start applying from this migration ID\<close>), have the second and the third
  record applied, in that order.
\<close>

theorem applyMigrations_skips_fromId:
  "fst (applyMigrations accepting_db (getMigrationConfig [''app'']) (Some ''2'')
          (example_world
             (example_store
                [example_migration ''1'' Table ''CREATE TABLE t (id INT)'',
                 example_migration ''2'' Table ''CREATE TABLE u (id INT)'',
                 example_migration ''3'' Table ''CREATE TABLE v (id INT)'']
                [''1'', ''2'', ''3'']))) = Inr () \<and>
   applied_of (w_log (snd (applyMigrations accepting_db (getMigrationConfig [''app'']) (Some ''2'')
          (example_world
             (example_store
                [example_migration ''1'' Table ''CREATE TABLE t (id INT)'',
                 example_migration ''2'' Table ''CREATE TABLE u (id INT)'',
                 example_migration ''3'' Table ''CREATE TABLE v (id INT)'']
                [''1'', ''2'', ''3'']))))) =
     [example_migration ''3'' Table ''CREATE TABLE v (id INT)''] \<and>
   applied_of (w_log (snd (applyMigrations accepting_db (getMigrationConfig [''app'']) (Some ''2'')
          (example_world
             (example_store
                [example_migration ''1'' Table ''CREATE TABLE t (id INT)'',
                 example_migration ''2'' Table ''CREATE TABLE u (id INT)'',
                 example_migration ''3'' Table ''CREATE TABLE v (id INT)'']
                [''1'', ''2'', ''3'']))))) \<noteq>
     [example_migration ''2'' Table ''CREATE TABLE u (id INT)'',
      example_migration ''3'' Table ''CREATE TABLE v (id INT)'']"
  by (simp add: applyMigrations_def w_fs_example_world getMigrations_example_store truthy_def
      applyMigration_def client_query_def accepting_db_def rollback_rethrow_def release_def)
    (simp add: example_migration_def example_world_def)














section \<open>Properties of the identifiers and of sequences of creations\<close>


lemma less_js_same_prefix: "less_js (p @ u) (p @ v) = less_js u v"
  by (induction p) simp_all

lemma digit_char_code: "d < 10 \<Longrightarrow> of_char (digit_char d) = (48 + d :: nat)"
proof -
  assume "d < 10"
  then have "d \<in> {0, 1, 2, 3, 4, 5, 6, 7, 8, 9}" by auto
  then show ?thesis
    by (auto simp: digit_char_def)
qed

lemma digit_char_less:
  assumes "a < b" "b < 10"
  shows "less_js (digit_char a # x) (digit_char b # y)"
proof -
  from assms have "(of_char (digit_char a) :: nat) < of_char (digit_char b)"
    by (simp add: digit_char_code)
  moreover from this have "digit_char a \<noteq> digit_char b" by auto
  ultimately show ?thesis by simp
qed

lemma toString_nat_small: "n < 10 \<Longrightarrow> toString_nat n = [digit_char n]"
  by (simp add: toString_nat.simps)

lemma toString_nat_large:
  "\<not> n < 10 \<Longrightarrow> toString_nat n = toString_nat (n div 10) @ [digit_char (n mod 10)]"
  by (subst toString_nat.simps) simp

lemma toString_nat_nonempty: "toString_nat n \<noteq> []"
  by (cases "n < 10") (simp_all add: toString_nat_small toString_nat_large)

lemma length_toString_nat_one: "length (toString_nat n) = Suc 0 \<longleftrightarrow> n < 10"
  using toString_nat_nonempty [of "n div 10"]
  by (cases "n < 10") (simp_all add: toString_nat_small toString_nat_large)

lemma divmod_less:
  fixes a b :: nat
  assumes "a < b"
  shows "a div 10 < b div 10 \<or> (a div 10 = b div 10 \<and> a mod 10 < b mod 10)"
proof (cases "a div 10 = b div 10")
  case True
  have "a = 10 * (a div 10) + a mod 10" "b = 10 * (b div 10) + b mod 10" by simp_all
  with True assms have "a mod 10 < b mod 10" by linarith
  with True show ?thesis by simp
next
  case False
  from assms have "a div 10 \<le> b div 10" by (simp add: div_le_mono)
  with False show ?thesis by simp
qed

lemma toString_nat_less:
  "a < b \<Longrightarrow> length (toString_nat a) = length (toString_nat b) \<Longrightarrow>
     less_js (toString_nat a @ x) (toString_nat b @ y)"
proof (induction a arbitrary: b x y rule: toString_nat.induct)
  case (1 a)
  show ?case
  proof (cases "a < 10")
    case True
    with "1.prems"(2) have "length (toString_nat b) = Suc 0"
      by (simp add: toString_nat_small)
    then have "b < 10"
      by (simp only: length_toString_nat_one)
    with True "1.prems"(1) show ?thesis
      by (simp add: toString_nat_small digit_char_less del: less_js.simps)
  next
    case False
    with "1.prems"(1) have b: "\<not> b < 10" by simp
    from "1.prems"(2)
    have len: "length (toString_nat (a div 10)) = length (toString_nat (b div 10))"
      by (simp add: toString_nat_large [OF False] toString_nat_large [OF b])
    from "1.prems"(1) have "a div 10 < b div 10 \<or> (a div 10 = b div 10 \<and> a mod 10 < b mod 10)"
      by (rule divmod_less)
    then show ?thesis
    proof
      assume "a div 10 < b div 10"
      from "1.IH" [OF False this len, of "digit_char (a mod 10) # x" "digit_char (b mod 10) # y"]
      show ?thesis
        by (simp add: toString_nat_large [OF False] toString_nat_large [OF b])
    next
      assume "a div 10 = b div 10 \<and> a mod 10 < b mod 10"
      then show ?thesis
        by (simp add: toString_nat_large [OF False] toString_nat_large [OF b]
            less_js_same_prefix digit_char_less del: less_js.simps)
    qed
  qed
qed

lemma length_toString_nat_range:
  "10 ^ k \<le> n \<Longrightarrow> n < 10 ^ Suc k \<Longrightarrow> length (toString_nat n) = Suc k"
proof (induction k arbitrary: n)
  case 0
  then have "n < 10" by simp
  then show ?case by (simp add: toString_nat_small)
next
  case (Suc k)
  define m :: nat where "m = 10 ^ k"
  have "1 \<le> m" by (simp add: m_def)
  from Suc.prems have lo: "10 * m \<le> n" and hi: "n < 10 * (10 * m)"
    by (simp_all add: m_def)
  from lo \<open>1 \<le> m\<close> have big: "\<not> n < 10" by linarith
  from lo have "m \<le> n div 10" by (simp add: less_eq_div_iff_mult_less_eq mult.commute)
  moreover from hi have "n div 10 < 10 * m" by (simp add: div_less_iff_less_mult mult.commute)
  ultimately have "10 ^ k \<le> n div 10" "n div 10 < 10 ^ Suc k"
    by (simp_all add: m_def)
  from Suc.IH [OF this] show ?case
    by (simp add: toString_nat_large [OF big])
qed

lemma generateMigrationId_less:
  assumes "10 ^ 12 \<le> now_id rd1" "now_id rd1 < now_id rd2" "now_id rd2 < 10 ^ 13"
  shows "less_js (generateMigrationId rd1) (generateMigrationId rd2)"
proof -
  have e: "(10::nat) ^ Suc 12 = 10 ^ 13" by simp
  from assms have "now_id rd1 < 10 ^ Suc 12" "10 ^ 12 \<le> now_id rd2" "now_id rd2 < 10 ^ Suc 12"
    unfolding e by linarith+
  with assms(1) have "length (toString_nat (now_id rd1)) = Suc 12"
    "length (toString_nat (now_id rd2)) = Suc 12"
    by (simp_all only: length_toString_nat_range)
  then have "length (toString_nat (now_id rd1)) = length (toString_nat (now_id rd2))"
    by simp
  from toString_nat_less [OF assms(2) this] show ?thesis
    by (simp only: generateMigrationId_def)
qed

lemma createMigration_id:
  "createMigration pf cfg rd type sql description fs = (Inr m, fs') \<Longrightarrow>
     mig_id m = generateMigrationId rd"
  by (auto simp: createMigration_def Let_def split: prod.splits sum.splits)

lemma createMigration_sequence_ids:
  "createMigration_sequence pf cfg calls fs = (Inr created, fs') \<Longrightarrow>
     map mig_id created = map (\<lambda>c. generateMigrationId (fst c)) calls"
proof (induction calls arbitrary: fs created)
  case Nil
  then show ?case by simp
next
  case (Cons c calls)
  obtain rd type sql description where c: "c = (rd, type, sql, description)"
    by (cases c)
  from Cons.prems c obtain m fs1 ms where
    1: "createMigration pf cfg rd type sql description fs = (Inr m, fs1)"
    and 2: "createMigration_sequence pf cfg calls fs1 = (Inr ms, fs')"
    and 3: "created = m # ms"
    by (auto split: prod.splits sum.splits)
  from createMigration_id [OF 1] Cons.IH [OF 2] 3 c show ?case by simp
qed


lemma path_prefixes_self: "p \<in> set (path_prefixes p)"
  by (induction p) auto

lemma createMigration_index:
  assumes "createMigration pf cfg rd type sql description fs = (Inr m, fs')"
  shows "fs' (migrationsDir cfg) \<noteq> None \<and>
         (\<exists>old. getMigrations cfg fs' = old @ [m] \<and>
                (fs (migrationsDir cfg) \<noteq> None \<longrightarrow> old = getMigrations cfg fs))"
proof -
  let ?sqlFile = "path_join (migrationsDir cfg) (mig_id m @ ''.sql'')"
  from assms obtain fs1 fs2 c ms content where
    e: "ensureMigrationsDir cfg fs = (Inr (), fs1)"
    and w1: "writeFile (path_join (migrationsDir cfg) (generateMigrationId rd @ ''.sql''))
               (Text content) fs1 = Inr fs2"
    and r: "readFile (metadataFile cfg) fs2 = Inr c"
    and p: "JSON_parse c = Inr ms"
    and w2: "writeFile (metadataFile cfg) (Metadata (ms @ [m])) fs2 = Inr fs'"
    by (auto simp: createMigration_def Let_def split: prod.splits sum.splits)
  from p have c: "c = Metadata ms"
    by (cases c) (simp_all add: JSON_parse_def)
  let ?sql = "path_join (migrationsDir cfg) (generateMigrationId rd @ ''.sql'')"
  have fs2: "fs2 = fs1(?sql \<mapsto> File (Text content))"
    using w1 by (auto simp: writeFile_def split: option.splits node.splits if_splits)
  have fs': "fs' = fs2(metadataFile cfg \<mapsto> File (Metadata (ms @ [m])))"
    using w2 by (auto simp: writeFile_def split: option.splits node.splits if_splits)
  from r c have m2: "fs2 (metadataFile cfg) = Some (File (Metadata ms))"
    by (auto simp: readFile_def split: option.splits node.splits)
  with fs2 have ne: "metadataFile cfg \<noteq> ?sql" by auto
  with m2 fs2 have m1: "fs1 (metadataFile cfg) = Some (File (Metadata ms))" by simp
  have d1: "fs1 (migrationsDir cfg) \<noteq> None"
    using e path_prefixes_self [of "migrationsDir cfg"]
    by (auto simp: ensureMigrationsDir_def access_def writeFile_def mkdir_recursive_def
        split: sum.splits option.splits node.splits if_splits)
  have 1: "fs' (migrationsDir cfg) \<noteq> None"
    using d1 by (simp add: fs' fs2)
  have 2: "getMigrations cfg fs' = ms @ [m]"
    by (simp add: getMigrations_def readFile_def JSON_parse_def fs')
  have 3: "ms = getMigrations cfg fs" if "fs (migrationsDir cfg) \<noteq> None"
  proof -
    from that e have "fs1 = fs"
      by (auto simp: ensureMigrationsDir_def access_def split: option.splits)
    with m1 show ?thesis
      by (simp add: getMigrations_def readFile_def JSON_parse_def)
  qed
  from 1 2 3 show ?thesis by blast
qed

lemma createMigration_sequence_index:
  "createMigration_sequence pf cfg calls fs = (Inr created, fs') \<Longrightarrow>
     fs (migrationsDir cfg) \<noteq> None \<Longrightarrow>
     getMigrations cfg fs' = getMigrations cfg fs @ created"
proof (induction calls arbitrary: fs created)
  case Nil
  then show ?case by simp
next
  case (Cons c calls)
  obtain rd type sql description where c: "c = (rd, type, sql, description)"
    by (cases c)
  from Cons.prems(1) c obtain m fs1 ms where
    1: "createMigration pf cfg rd type sql description fs = (Inr m, fs1)"
    and 2: "createMigration_sequence pf cfg calls fs1 = (Inr ms, fs')"
    and 3: "created = m # ms"
    by (auto split: prod.splits sum.splits)
  from createMigration_index [OF 1] Cons.prems(2)
  have "fs1 (migrationsDir cfg) \<noteq> None" "getMigrations cfg fs1 = getMigrations cfg fs @ [m]"
    by auto
  with Cons.IH [OF 2] 3 show ?case by simp
qed

lemma createMigration_sequence_suffix:
  assumes "createMigration_sequence pf cfg calls fs = (Inr created, fs')"
  shows "\<exists>old. getMigrations cfg fs' = old @ created"
proof (cases calls)
  case Nil
  with assms show ?thesis by simp
next
  case (Cons c rest)
  obtain rd type sql description where c: "c = (rd, type, sql, description)"
    by (cases c)
  from assms Cons c obtain m fs1 ms where
    1: "createMigration pf cfg rd type sql description fs = (Inr m, fs1)"
    and 2: "createMigration_sequence pf cfg rest fs1 = (Inr ms, fs')"
    and 3: "created = m # ms"
    by (auto split: prod.splits sum.splits)
  from createMigration_index [OF 1] obtain old where
    "fs1 (migrationsDir cfg) \<noteq> None" "getMigrations cfg fs1 = old @ [m]"
    by auto
  with createMigration_sequence_index [OF 2] 3 show ?thesis by simp
qed

lemma sorted_ids:
  assumes "sorted_wrt (<) (map now_id rds)"
    and "\<forall>rd \<in> set rds. 10 ^ 12 \<le> now_id rd \<and> now_id rd < 10 ^ 13"
  shows "sorted_wrt less_js (map generateMigrationId rds)"
  using assms
proof (induction rds)
  case Nil
  show ?case by simp
next
  case (Cons rd rds)
  then show ?case
    by (auto intro!: generateMigrationId_less)
qed

text \<open>
  C8, as the code has it. After a sequence of successful \<^verbatim>\<open>createMigration\<close> calls,
  \<^verbatim>\<open>getMigrations\<close> returns the records created, in the order of their creation, after
  the records the index held before (exactly those, when the migrations directory existed
  before the first call). The ids are strictly increasing under the string comparison when
  the clock values read for the ids are strictly increasing and all have thirteen digits;
  nothing in the code orders two ids made from the same clock value.
\<close>

theorem createMigration_sequence_order:
  assumes "createMigration_sequence pf cfg calls fs = (Inr created, fs')"
  shows "(\<exists>old. getMigrations cfg fs' = old @ created) \<and>
         (fs (migrationsDir cfg) \<noteq> None \<longrightarrow>
            getMigrations cfg fs' = getMigrations cfg fs @ created) \<and>
         (sorted_wrt (<) (map (\<lambda>c. now_id (fst c)) calls) \<and>
          (\<forall>c \<in> set calls. 10 ^ 12 \<le> now_id (fst c) \<and> now_id (fst c) < 10 ^ 13) \<longrightarrow>
            sorted_wrt less_js (map mig_id created))"
proof -
  have ids: "map mig_id created = map generateMigrationId (map fst calls)"
    using createMigration_sequence_ids [OF assms] by simp
  have "sorted_wrt less_js (map mig_id created)"
    if "sorted_wrt (<) (map (\<lambda>c. now_id (fst c)) calls)"
      "\<forall>c \<in> set calls. 10 ^ 12 \<le> now_id (fst c) \<and> now_id (fst c) < 10 ^ 13"
    unfolding ids
    by (rule sorted_ids) (use that in \<open>simp_all add: comp_def\<close>)
  with createMigration_sequence_suffix [OF assms] createMigration_sequence_index [OF assms]
  show ?thesis by blast
qed


lemma example_id_1: 
  "generateMigrationId (example_readings 1700000000000 [0xff, 0xff, 0xff, 0xff]) =
     ''1700000000000_ffffffff''"
  by (simp add: generateMigrationId_def example_readings_def toString_nat.simps digit_char_def
      toString_hex_def hex_byte_def)

lemma example_id_2: 
  "generateMigrationId (example_readings 1700000000000 [0x00, 0x00, 0x00, 0x00]) =
     ''1700000000000_00000000''"
  by (simp add: generateMigrationId_def example_readings_def toString_nat.simps digit_char_def
      toString_hex_def hex_byte_def)

lemma example_id_3: 
  "generateMigrationId (example_readings 1700000000001 [0x00, 0x00, 0x00, 0x00]) =
     ''1700000000001_00000000''"
  by (simp add: generateMigrationId_def example_readings_def toString_nat.simps digit_char_def
      toString_hex_def hex_byte_def)

lemma example_sequence_runs_ex:
  assumes "CHR ''/'' \<notin> set i1" "CHR ''/'' \<notin> set i2"
    and "generateMigrationId rd1 = i1" "generateMigrationId rd2 = i2"
  shows "\<exists>m1 m2. fst (createMigration_sequence pf (getMigrationConfig [''app''])
      [(rd1, t1, s1, d1), (rd2, t2, s2, d2)] Map.empty) = Inr [m1, m2] \<and>
    getMigrations (getMigrationConfig [''app''])
      (snd (createMigration_sequence pf (getMigrationConfig [''app''])
      [(rd1, t1, s1, d1), (rd2, t2, s2, d2)] Map.empty)) = [m1, m2]"
proof -
  have "last (i1 @ ''.sql'') = CHR ''l''" "last (i2 @ ''.sql'') = CHR ''l''" by simp_all
  then have "i1 @ ''.sql'' \<noteq> ''metadata.json''" "i2 @ ''.sql'' \<noteq> ''metadata.json''"
    by auto
  with assms(3,4) show ?thesis
    by (simp add: createMigration_def ensureMigrationsDir_def access_def mkdir_recursive_empty
        writeFile_def readFile_def JSON_parse_def getMigrationConfig_paths
        sql_name_plain [OF assms(1)] sql_name_plain [OF assms(2)] Let_def getMigrations_def)
qed


lemma example_sequence_runs:
  assumes "CHR ''/'' \<notin> set i1" "CHR ''/'' \<notin> set i2"
    and "generateMigrationId rd1 = i1" "generateMigrationId rd2 = i2"
  obtains m1 m2 where
    "fst (createMigration_sequence pf (getMigrationConfig [''app''])
      [(rd1, t1, s1, d1), (rd2, t2, s2, d2)] Map.empty) = Inr [m1, m2]"
    "getMigrations (getMigrationConfig [''app''])
      (snd (createMigration_sequence pf (getMigrationConfig [''app''])
      [(rd1, t1, s1, d1), (rd2, t2, s2, d2)] Map.empty)) = [m1, m2]"
proof -
  from example_sequence_runs_ex [OF assms, of pf t1 s1 d1 t2 s2 d2]
  obtain m1 m2 where
    "fst (createMigration_sequence pf (getMigrationConfig [''app''])
      [(rd1, t1, s1, d1), (rd2, t2, s2, d2)] Map.empty) = Inr [m1, m2]"
    "getMigrations (getMigrationConfig [''app''])
      (snd (createMigration_sequence pf (getMigrationConfig [''app''])
      [(rd1, t1, s1, d1), (rd2, t2, s2, d2)] Map.empty)) = [m1, m2]"
    by blast
  then show thesis by (rule that)
qed

lemma not_metadata_json: "last i = CHR ''l'' \<Longrightarrow> i \<noteq> ''metadata.json''"
  by auto

lemma pair_fstI: "fst p = a \<Longrightarrow> p = (a, snd p)"
  by (cases p) simp

text \<open>
  C8 as the specification states it fails: two records created within the same
  millisecond are listed in creation order, but the id of the second, whose random suffix
  is smaller, is not greater than the id of the first.
\<close>

theorem createMigration_sequence_order_counterexample:
  "map mig_id (getMigrations (getMigrationConfig [''app''])
      (snd (createMigration_sequence example_platform (getMigrationConfig [''app''])
         [(example_readings 1700000000000 [0xff, 0xff, 0xff, 0xff], Table,
             ''CREATE TABLE t (id INT)'', None :: string option),
          (example_readings 1700000000000 [0x00, 0x00, 0x00, 0x00], Table,
             ''CREATE TABLE u (id INT)'', None :: string option)] Map.empty))) =
     [''1700000000000_ffffffff'', ''1700000000000_00000000''] \<and>
   \<not> less_js ''1700000000000_ffffffff'' ''1700000000000_00000000''"
proof -
  let ?cfg = "getMigrationConfig [''app'']"
  let ?calls = "[(example_readings 1700000000000 [0xff, 0xff, 0xff, 0xff], Table,
             ''CREATE TABLE t (id INT)'', None :: string option),
          (example_readings 1700000000000 [0x00, 0x00, 0x00, 0x00], Table,
             ''CREATE TABLE u (id INT)'', None :: string option)]"
  let ?run = "createMigration_sequence example_platform ?cfg ?calls Map.empty"
  have "CHR ''/'' \<notin> set ''1700000000000_ffffffff''" "CHR ''/'' \<notin> set ''1700000000000_00000000''"
    by simp_all
  then obtain m1 m2 where ok: "fst ?run = Inr [m1, m2]"
    and idx: "getMigrations ?cfg (snd ?run) = [m1, m2]"
    by (rule example_sequence_runs [OF _ _ example_id_1 example_id_2])
  note run = pair_fstI [OF ok]
  from createMigration_sequence_ids [OF run]
  have "map mig_id [m1, m2] = map (\<lambda>c. generateMigrationId (fst c)) ?calls" .
  also have "\<dots> = [''1700000000000_ffffffff'', ''1700000000000_00000000'']"
    by (simp add: example_id_1 example_id_2)
  finally have ids: "map mig_id (getMigrations ?cfg (snd ?run)) =
      [''1700000000000_ffffffff'', ''1700000000000_00000000'']"
    by (simp only: idx)
  have "\<not> less_js ''1700000000000_ffffffff'' ''1700000000000_00000000''"
    by simp
  with ids show ?thesis by (rule conjI)
qed

theorem createMigration_sequence_order_witness:
  "\<exists>created. 
     fst (createMigration_sequence example_platform (getMigrationConfig [''app''])
         [(example_readings 1700000000000 [0xff, 0xff, 0xff, 0xff], Table,
             ''CREATE TABLE t (id INT)'', None :: string option),
          (example_readings 1700000000001 [0x00, 0x00, 0x00, 0x00], Index,
             ''CREATE INDEX i ON t (id)'', None :: string option)] Map.empty) = Inr created \<and>
     getMigrations (getMigrationConfig [''app''])
      (snd (createMigration_sequence example_platform (getMigrationConfig [''app''])
         [(example_readings 1700000000000 [0xff, 0xff, 0xff, 0xff], Table,
             ''CREATE TABLE t (id INT)'', None :: string option),
          (example_readings 1700000000001 [0x00, 0x00, 0x00, 0x00], Index,
             ''CREATE INDEX i ON t (id)'', None :: string option)] Map.empty)) = created \<and>
     map mig_id created = [''1700000000000_ffffffff'', ''1700000000001_00000000''] \<and>
     sorted_wrt less_js (map mig_id created)"
proof -
  let ?cfg = "getMigrationConfig [''app'']"
  let ?calls = "[(example_readings 1700000000000 [0xff, 0xff, 0xff, 0xff], Table,
             ''CREATE TABLE t (id INT)'', None :: string option),
          (example_readings 1700000000001 [0x00, 0x00, 0x00, 0x00], Index,
             ''CREATE INDEX i ON t (id)'', None :: string option)]"
  let ?run = "createMigration_sequence example_platform ?cfg ?calls Map.empty"
  have "CHR ''/'' \<notin> set ''1700000000000_ffffffff''" "CHR ''/'' \<notin> set ''1700000000001_00000000''"
    by simp_all
  then obtain m1 m2 where ok: "fst ?run = Inr [m1, m2]"
    and idx: "getMigrations ?cfg (snd ?run) = [m1, m2]"
    by (rule example_sequence_runs [OF _ _ example_id_1 example_id_3])
  note run = pair_fstI [OF ok]
  have clock: "sorted_wrt (<) (map (\<lambda>c. now_id (fst c)) ?calls)"
    by (simp add: example_readings_def)
  have range: "\<forall>c \<in> set ?calls. 10 ^ 12 \<le> now_id (fst c) \<and> now_id (fst c) < 10 ^ 13"
    by (simp add: example_readings_def)
  note order = createMigration_sequence_order [OF run]
  have sorted: "sorted_wrt less_js (map mig_id [m1, m2])"
    by (rule order [THEN conjunct2, THEN conjunct2, THEN mp, OF conjI [OF clock range]])
  from createMigration_sequence_ids [OF run]
  have "map mig_id [m1, m2] = map (\<lambda>c. generateMigrationId (fst c)) ?calls" .
  also have "\<dots> = [''1700000000000_ffffffff'', ''1700000000001_00000000'']"
    by (simp add: example_id_1 example_id_3)
  finally have ids: "map mig_id [m1, m2] =
      [''1700000000000_ffffffff'', ''1700000000001_00000000'']" .
  show ?thesis
  proof (intro exI [of _ "[m1, m2]"] conjI)
    show "fst ?run = Inr [m1, m2]" by (rule ok)
    show "getMigrations ?cfg (snd ?run) = [m1, m2]" by (rule idx)
    show "map mig_id [m1, m2] = [''1700000000000_ffffffff'', ''1700000000001_00000000'']"
      by (rule ids)
    show "sorted_wrt less_js (map mig_id [m1, m2])" by (rule sorted)
  qed
qed

end
